theory Spec2Isabelle
  imports Main "HOL-Library.Sublist"
begin

section \<open>Python text\<close>

text \<open>
  A Python \<open>str\<close> is modelled by the list of the bytes of its UTF-8 encoding.  All the
  texts the handler compares with, slices by or substitutes are ASCII, so the lengths it
  counts (\<open>[7:]\<close>, \<open>[3:]\<close>, \<open>[:-3]\<close>) are the same in bytes and in code points.
\<close>

text \<open>
  The code points \<open>str.strip()\<close> removes (those with \<open>str.isspace()\<close>), each as its
  UTF-8 bytes: U+0009..U+000D, U+001C..U+0020, U+0085, U+00A0, U+1680, U+2000..U+200A,
  U+2028, U+2029, U+202F, U+205F, U+3000.
\<close>

definition whitespace :: "string list" where
  "whitespace =
     [[CHR 0x09], [CHR 0x0A], [CHR 0x0B], [CHR 0x0C], [CHR 0x0D],
      [CHR 0x1C], [CHR 0x1D], [CHR 0x1E], [CHR 0x1F], [CHR 0x20],
      [CHR 0xC2, CHR 0x85], [CHR 0xC2, CHR 0xA0],
      [CHR 0xE1, CHR 0x9A, CHR 0x80],
      [CHR 0xE2, CHR 0x80, CHR 0x80], [CHR 0xE2, CHR 0x80, CHR 0x81],
      [CHR 0xE2, CHR 0x80, CHR 0x82], [CHR 0xE2, CHR 0x80, CHR 0x83],
      [CHR 0xE2, CHR 0x80, CHR 0x84], [CHR 0xE2, CHR 0x80, CHR 0x85],
      [CHR 0xE2, CHR 0x80, CHR 0x86], [CHR 0xE2, CHR 0x80, CHR 0x87],
      [CHR 0xE2, CHR 0x80, CHR 0x88], [CHR 0xE2, CHR 0x80, CHR 0x89],
      [CHR 0xE2, CHR 0x80, CHR 0x8A],
      [CHR 0xE2, CHR 0x80, CHR 0xA8], [CHR 0xE2, CHR 0x80, CHR 0xA9],
      [CHR 0xE2, CHR 0x80, CHR 0xAF],
      [CHR 0xE2, CHR 0x81, CHR 0x9F],
      [CHR 0xE3, CHR 0x80, CHR 0x80]]"

text \<open>
  Removing, again and again, whichever of the byte sequences \<open>codes\<close> the text starts
  with.  \<open>lstrip\<close> does it with the encodings of the whitespace; \<open>rstrip\<close> does the same
  from the other end, on the reversed text with the reversed encodings.
\<close>

function strip_front :: "string list \<Rightarrow> string \<Rightarrow> string" where
  "strip_front codes s =
     (case find (\<lambda>w. prefix w s) codes of
        None \<Rightarrow> s
      | Some w \<Rightarrow> if w = [] then s else strip_front codes (drop (length w) s))"
  by pat_completeness auto
termination
proof (relation "measure (\<lambda>(codes, s). length s)")
  show "wf (measure (\<lambda>(codes, s). length s))"
    by simp
next
  fix codes :: "string list" and s w :: string
  assume f: "find (\<lambda>w. prefix w s) codes = Some w" and ne: "w \<noteq> []"
  from f have "prefix w s"
    by (auto simp: find_Some_iff)
  with ne have "s \<noteq> []"
    by auto
  with ne show "((codes, drop (length w) s), (codes, s)) \<in> measure (\<lambda>(codes, s). length s)"
    by simp
qed

declare strip_front.simps [simp del]

definition lstrip :: "string \<Rightarrow> string" where
  "lstrip s = strip_front whitespace s"

definition rstrip :: "string \<Rightarrow> string" where
  "rstrip s = rev (strip_front (map rev whitespace) (rev s))"

definition strip :: "string \<Rightarrow> string" where
  "strip s = rstrip (lstrip s)"

text \<open>
  \<open>str.replace(old, new)\<close>: the occurrences of \<open>old\<close> are found from left to right and do
  not overlap; the search resumes behind each occurrence it replaced.
\<close>

function py_replace :: "string \<Rightarrow> string \<Rightarrow> string \<Rightarrow> string" where
  "py_replace old new [] = (if old = [] then new else [])"
| "py_replace old new (c # cs) =
     (if old = [] then new @ c # py_replace old new cs
      else if prefix old (c # cs) then new @ py_replace old new (drop (length old) (c # cs))
      else c # py_replace old new cs)"
  by pat_completeness auto
termination
  by (relation "measure (\<lambda>(old, new, s). length s)") auto

text \<open>\<open>sep.join(xs)\<close>.\<close>

fun py_join :: "string \<Rightarrow> string list \<Rightarrow> string" where
  "py_join sep [] = []"
| "py_join sep [x] = x"
| "py_join sep (x # y # ys) = x @ sep @ py_join sep (y # ys)"

text \<open>
  The code points of a text: a byte \<open>10xxxxxx\<close> continues the code point before it.
  Iterating over a \<open>str\<close> yields these.
\<close>

definition continuation :: "char \<Rightarrow> bool" where
  "continuation c = (let n = of_char c :: nat in 128 \<le> n \<and> n < 192)"

function code_points :: "string \<Rightarrow> string list" where
  "code_points [] = []"
| "code_points (c # cs) =
     (c # takeWhile continuation cs) # code_points (dropWhile continuation cs)"
  by pat_completeness auto
termination
  by (relation "measure length") (auto simp: length_dropWhile_le less_Suc_eq_le)

section \<open>The query rewrite\<close>

text \<open>
  Lines 211--214 of \<open>app.py\<close>, the body of \<open>if sql_query:\<close>: three substitutions, in this
  order.
\<close>

definition sql_alias_fix :: "string \<Rightarrow> string" where
  "sql_alias_fix q =
     py_replace ''.model ='' ''.model_name =''
       (py_replace '' bf.model,'' '' bf.model_name,''
         (py_replace '' bf.model '' '' bf.model_name '' q))"

section \<open>Stripping the code fence\<close>

text \<open>Lines 196--203: the text handed to \<open>json.loads\<close>.\<close>

definition json_str :: "string \<Rightarrow> string" where
  "json_str llm_response_str =
     (let s0 = strip llm_response_str;
          s1 = (if prefix ''```json'' s0 then drop 7 s0 else s0);
          s2 = (if prefix ''```'' s1 then drop 3 s1 else s1);
          s3 = (if suffix ''```'' s2 then take (length s2 - 3) s2 else s2)
      in strip s3)"

section \<open>Python values\<close>

text \<open>
  What \<open>json.loads\<close> returns, what a result row holds and what \<open>ast.literal_eval\<close>
  returns: \<open>None\<close>, \<open>bool\<close>, \<open>int\<close>, \<open>str\<close>, \<open>list\<close> and \<open>dict\<close> with text
  keys.  Floating-point numbers are left out.
\<close>

datatype pyval =
    PNone
  | PBool bool
  | PInt int
  | PStr string
  | PList "pyval list"
  | PDict "(string \<times> pyval) list"

text \<open>The truth value of \<open>if v:\<close>, \<open>not v\<close> and \<open>v or w\<close>.\<close>

fun truthy :: "pyval \<Rightarrow> bool" where
  "truthy PNone = False"
| "truthy (PBool b) = b"
| "truthy (PInt i) = (i \<noteq> 0)"
| "truthy (PStr s) = (s \<noteq> [])"
| "truthy (PList xs) = (xs \<noteq> [])"
| "truthy (PDict kvs) = (kvs \<noteq> [])"

text \<open>\<open>d.get(k, default)\<close>; \<open>d.get(k)\<close> is \<open>dict_get d k PNone\<close>.\<close>

definition dict_get :: "(string \<times> pyval) list \<Rightarrow> string \<Rightarrow> pyval \<Rightarrow> pyval" where
  "dict_get d k dflt = (case map_of d k of None \<Rightarrow> dflt | Some v \<Rightarrow> v)"

text \<open>\<open>v or w\<close>.\<close>

definition py_or :: "pyval \<Rightarrow> pyval \<Rightarrow> pyval" where
  "py_or v w = (if truthy v then v else w)"

datatype py_error =
    JSONDecodeError
  | AttributeError
  | TypeError
  | ValueError
  | SyntaxError
  | MemoryError
  | RecursionError
  | OtherError string

text \<open>
  \<open>v += t\<close> for a text \<open>t\<close>: texts are joined, a list is extended by the characters of
  \<open>t\<close>, every other value raises \<open>TypeError\<close>.
\<close>

fun iadd_str :: "pyval \<Rightarrow> string \<Rightarrow> py_error + pyval" where
  "iadd_str (PStr s) t = Inr (PStr (s @ t))"
| "iadd_str (PList xs) t = Inr (PList (xs @ map PStr (code_points t)))"
| "iadd_str v t = Inl TypeError"

section \<open>What the handler calls\<close>

text \<open>
  The library functions and the two services the handler calls are parameters of the
  model:
  \<^item> \<open>invoke\<close>: \<open>query_chain.invoke\<close>, from the question and the history sent to it, the
    model's text or the exception it raises;
  \<^item> \<open>loads\<close>: \<open>json.loads\<close>, which raises \<open>JSONDecodeError\<close> on a text that is not JSON;
  \<^item> \<open>execute\<close>: \<open>connection.execute(text(sql_query)).fetchall()\<close>, from the
    statement and the table \<open>chat_sessions\<close> as the transaction sees it: the rows of the
    statement, each row as its \<open>_mapping\<close> from column names to values, and the table
    as the statement leaves it, or the exception raised.  The statement is the model's
    and runs on the handler's connection, so it may write the table;
  \<^item> \<open>literal_eval\<close>: \<open>ast.literal_eval\<close>;
  \<^item> \<open>str_of\<close>: what an f-string puts for a value that is not a text.
\<close>

record turn =
  role :: string
  content :: pyval

type_synonym row = "(string \<times> pyval) list"

text \<open>
  The table \<open>chat_sessions\<close>: for each \<open>session_id\<close> that has a row, the \<open>history\<close>
  column, which may be null.  The handler's own three statements on it (the select, the
  insert and the update) are taken to succeed.
\<close>

type_synonym chat_sessions = "string \<rightharpoonup> turn list option"

record env =
  invoke :: "string \<Rightarrow> turn list \<Rightarrow> py_error + string"
  loads :: "string \<Rightarrow> py_error + pyval"
  execute :: "string \<Rightarrow> chat_sessions \<Rightarrow> py_error + row list \<times> chat_sessions"
  literal_eval :: "string \<Rightarrow> py_error + pyval"
  str_of :: "pyval \<Rightarrow> string"

text \<open>\<open>f"{v}"\<close>.\<close>

definition fmt :: "env \<Rightarrow> pyval \<Rightarrow> string" where
  "fmt e v = (case v of PStr s \<Rightarrow> s | _ \<Rightarrow> str_of e v)"

section \<open>Parsing the model's decision\<close>

record decision =
  action :: pyval
  response_text :: pyval
  context_update :: pyval
  sql_query :: pyval
  manual_link :: pyval
  regulation_ref :: pyval

text \<open>
  Lines 205--216.  \<open>llm_json.get\<close> exists on a \<open>dict\<close> only, and \<open>sql_query.replace\<close> on
  a \<open>str\<close> only: elsewhere the attribute access raises \<open>AttributeError\<close>.
\<close>

definition fix_sql_query :: "pyval \<Rightarrow> py_error + pyval" where
  "fix_sql_query q =
     (if truthy q then
        (case q of PStr s \<Rightarrow> Inr (PStr (sql_alias_fix s)) | _ \<Rightarrow> Inl AttributeError)
      else Inr q)"

definition decision_of :: "pyval \<Rightarrow> py_error + decision" where
  "decision_of llm_json =
     (case llm_json of
        PDict d \<Rightarrow>
          (case fix_sql_query (dict_get d ''sql_query'' PNone) of
             Inl err \<Rightarrow> Inl err
           | Inr q \<Rightarrow>
               Inr \<lparr> action = dict_get d ''action'' PNone,
                     response_text = dict_get d ''response'' PNone,
                     context_update = dict_get d ''context_update'' (PDict []),
                     sql_query = q,
                     manual_link = dict_get d ''manual_link'' (PStr []),
                     regulation_ref = dict_get d ''regulation_ref'' (PStr []) \<rparr>)
      | _ \<Rightarrow> Inl AttributeError)"

definition parse :: "env \<Rightarrow> string \<Rightarrow> py_error + decision" where
  "parse e llm_response_str =
     (case loads e (json_str llm_response_str) of
        Inl err \<Rightarrow> Inl err
      | Inr llm_json \<Rightarrow> decision_of llm_json)"

section \<open>Formatting a result row\<close>

text \<open>Lines 238--248: the \<open>solutions\<close> column as a list.\<close>

definition solutions_list :: "env \<Rightarrow> pyval \<Rightarrow> py_error + pyval list" where
  "solutions_list e solutions_val =
     (case solutions_val of
        PList xs \<Rightarrow> Inr xs
      | PStr s \<Rightarrow>
          (case literal_eval e s of
             Inr (PList xs) \<Rightarrow> Inr xs
           | Inr _ \<Rightarrow> Inr [PStr s]
           | Inl err \<Rightarrow>
               if err = ValueError \<or> err = SyntaxError then Inr [PStr s] else Inl err)
      | _ \<Rightarrow> Inr [])"

definition manual_note :: string where
  "manual_note =
     [CHR 0x0A, CHR 0x0A, CHR 0xEF, CHR 0xA3, CHR 0xBF, CHR 0xC3, CHR 0xBC, CHR 0xC3, CHR 0xAC,
      CHR 0xC3, CHR 0xB1] @ '' Manual: ''"

definition regulation_note :: string where
  "regulation_note =
     [CHR 0x0A, CHR 0x0A, CHR 0xE2, CHR 0x80, CHR 0x9A, CHR 0xC3, CHR 0xB6, CHR 0xE2, CHR 0x80,
      CHR 0xA0, CHR 0xC3, CHR 0x94, CHR 0xE2, CHR 0x88, CHR 0x8F, CHR 0xC3, CHR 0xA8]
     @ '' Gas Safety Regulation: ''"

definition steps_header :: string where
  "steps_header = [CHR 0x0A, CHR 0x0A] @ ''Recommended steps:'' @ [CHR 0x0A]"

text \<open>
  Lines 233--261.  \<open>description.strip()\<close> exists on a \<open>str\<close> only.  The solutions are
  read before the description is stripped, so their exception comes first.
\<close>

definition format_row :: "env \<Rightarrow> row \<Rightarrow> pyval \<Rightarrow> pyval \<Rightarrow> py_error + string" where
  "format_row e row_dict manual regulation =
     (let description = dict_get row_dict ''description'' (PStr []);
          solutions_val = dict_get row_dict ''solutions'' PNone
      in case solutions_list e solutions_val of
           Inl err \<Rightarrow> Inl err
         | Inr sols \<Rightarrow>
             (case description of
                PStr d \<Rightarrow>
                  (let r0 = strip d;
                       r1 = (if sols \<noteq> []
                             then r0 @ steps_header
                                    @ py_join [CHR 0x0A] (map (\<lambda>s. ''- '' @ fmt e s) sols)
                             else r0);
                       r2 = (if truthy manual then r1 @ manual_note @ fmt e manual else r1);
                       r3 = (if truthy regulation
                             then r2 @ regulation_note @ fmt e regulation else r2)
                   in Inr r3)
              | _ \<Rightarrow> Inl AttributeError))"

section \<open>Acting on the decision\<close>

definition no_match_text :: string where
  "no_match_text =
     ''No specific fault code found. Based on the information provided, I'' @ [CHR 0x27]
     @ ''ll use my engineering experience to help diagnose the issue.''"

definition no_query_text :: string where
  "no_query_text = ''Unable to generate a database query.''"

definition clarify_text :: string where
  "clarify_text = ''I'' @ [CHR 0x27] @ ''m not sure how to proceed. Could you please clarify?''"

text \<open>
  Lines 224--280, on the table as the transaction sees it: the final reply, the
  \<open>sql_query\<close> of the answer and the table as the statement executed left it, or the
  exception raised on the way.  \<open>text(sql_query)\<close> wants a \<open>str\<close>; behind \<open>parse\<close> a
  true \<open>sql_query\<close> is one.
\<close>

definition act ::
  "env \<Rightarrow> decision \<Rightarrow> chat_sessions \<Rightarrow> py_error + pyval \<times> pyval \<times> chat_sessions" where
  "act e d db =
     (if action d = PStr ''query'' then
        (if truthy (sql_query d) then
           (case sql_query d of
              PStr q \<Rightarrow>
                (case execute e q db of
                   Inl err \<Rightarrow> Inl err
                 | Inr ([], db') \<Rightarrow>
                     Inr (py_or (response_text d) (PStr no_match_text), sql_query d, db')
                 | Inr (r # rs, db') \<Rightarrow>
                     (case format_row e r (manual_link d) (regulation_ref d) of
                        Inl err \<Rightarrow> Inl err
                      | Inr reply \<Rightarrow> Inr (PStr reply, sql_query d, db')))
            | _ \<Rightarrow> Inl TypeError)
         else Inr (PStr no_query_text, sql_query d, db))
      else if action d = PStr ''fallback_reasoning'' then
        (case (if truthy (manual_link d)
               then iadd_str (response_text d) (manual_note @ fmt e (manual_link d))
               else Inr (response_text d)) of
           Inl err \<Rightarrow> Inl err
         | Inr r1 \<Rightarrow>
             (case (if truthy (regulation_ref d)
                    then iadd_str r1 (regulation_note @ fmt e (regulation_ref d))
                    else Inr r1) of
                Inl err \<Rightarrow> Inl err
              | Inr r2 \<Rightarrow> Inr (r2, PStr ''N/A'', db)))
      else if action d = PStr ''ask'' then Inr (response_text d, PStr ''N/A'', db)
      else Inr (py_or (response_text d) (PStr clarify_text), PStr ''N/A'', db))"

section \<open>The request handler\<close>

text \<open>
  The body of the request is a JSON object; its fields \<open>question\<close> and \<open>sessionId\<close> are
  texts, or missing.
\<close>

record request =
  question :: "string option"
  sessionId :: "string option"

record answer =
  a_response :: pyval
  a_sql_query :: pyval
  a_session_id :: string
  a_manual_link :: pyval
  a_regulation_ref :: pyval
  a_action :: pyval

text \<open>
  The four shapes of what the handler returns: status 400 with a message (lines 160 and
  163), status 500 with the message of line 218 and the model's text as \<open>llm_response\<close>,
  status 500 with \<open>str(e)\<close> of the exception caught at line 298, and the answer of
  line 289.
\<close>

datatype response =
    BadRequest string
  | DecodeFailure string
  | ServerError py_error
  | Ok answer

text \<open>
  How the block under \<open>with connection.begin():\<close> is left: by an exception, by the
  \<open>return\<close> of line 218, or at its end.
\<close>

datatype body_exit =
    Raises py_error
  | Returns response
  | Completes answer

definition user_turn :: "string \<Rightarrow> turn" where
  "user_turn q = \<lparr> role = ''user'', content = PStr q \<rparr>"

definition assistant_turn :: "pyval \<Rightarrow> turn" where
  "assistant_turn r = \<lparr> role = ''assistant'', content = r \<rparr>"

text \<open>
  Lines 170--182: the history read, and the table after the insert of a session that was
  not there.  \<open>json.dumps(history)\<close> is taken before the question is appended, so the
  row inserted holds the empty history.
\<close>

definition fetch_or_create :: "string \<Rightarrow> chat_sessions \<Rightarrow> turn list \<times> chat_sessions" where
  "fetch_or_create session_id db =
     (case db session_id of
        Some col \<Rightarrow> ((case col of Some h \<Rightarrow> h | None \<Rightarrow> []), db)
      | None \<Rightarrow> ([], db(session_id \<mapsto> Some [])))"

text \<open>
  Lines 284--287: the update sets the history of the row of the session, if the table
  still has one when it runs.
\<close>

definition update_history :: "string \<Rightarrow> turn list \<Rightarrow> chat_sessions \<Rightarrow> chat_sessions" where
  "update_history session_id history db =
     (if db session_id = None then db else db(session_id \<mapsto> Some history))"

text \<open>
  Lines 169--287, on the connection's view of the table.  The second component is the
  table as the transaction has written it so far.  The history written back is the one
  read at the start, with the two turns of this request.
\<close>

definition transaction_body ::
  "env \<Rightarrow> string \<Rightarrow> string \<Rightarrow> chat_sessions \<Rightarrow> body_exit \<times> chat_sessions" where
  "transaction_body e session_id q db =
     (let (history0, db1) = fetch_or_create session_id db;
          history = history0 @ [user_turn q]
      in case invoke e q history of
           Inl err \<Rightarrow> (Raises err, db1)
         | Inr llm_response_str \<Rightarrow>
             (case parse e llm_response_str of
                Inl err \<Rightarrow>
                  if err = JSONDecodeError
                  then (Returns (DecodeFailure llm_response_str), db1)
                  else (Raises err, db1)
              | Inr d \<Rightarrow>
                  (case act e d db1 of
                     Inl err \<Rightarrow> (Raises err, db1)
                   | Inr (final_response, sql_query_for_response, db2) \<Rightarrow>
                       (Completes
                          \<lparr> a_response = final_response,
                            a_sql_query = sql_query_for_response,
                            a_session_id = session_id,
                            a_manual_link = manual_link d,
                            a_regulation_ref = regulation_ref d,
                            a_action = action d \<rparr>,
                        update_history session_id
                          (history @ [assistant_turn final_response]) db2))))"

text \<open>
  \<open>with connection.begin():\<close> commits what the block wrote when the block is left
  without an exception, which a \<open>return\<close> inside it does too, and rolls it back when the
  block raises.  The handler returns its response together with the table as committed.
\<close>

definition text_to_sql :: "env \<Rightarrow> request \<Rightarrow> chat_sessions \<Rightarrow> response \<times> chat_sessions" where
  "text_to_sql e req db =
     (case sessionId req of
        None \<Rightarrow> (BadRequest ''No session ID provided'', db)
      | Some session_id \<Rightarrow>
          if session_id = [] then (BadRequest ''No session ID provided'', db)
          else
            (case question req of
               None \<Rightarrow> (BadRequest ''No question provided'', db)
             | Some q \<Rightarrow>
                 if q = [] then (BadRequest ''No question provided'', db)
                 else
                   (case transaction_body e session_id q db of
                      (Raises err, db') \<Rightarrow> (ServerError err, db)
                    | (Returns r, db') \<Rightarrow> (r, db')
                    | (Completes a, db') \<Rightarrow> (Ok a, db'))))"

text \<open>A sequence of requests, each with what its calls return, one after the other.\<close>

fun serve :: "(env \<times> request) list \<Rightarrow> chat_sessions \<Rightarrow> response list \<times> chat_sessions" where
  "serve [] db = ([], db)"
| "serve ((e, req) # rest) db =
     (let (r, db') = text_to_sql e req db;
          (rs, db'') = serve rest db'
      in (r # rs, db''))"

text \<open>The history stored for a session; none for a session without a row.\<close>

definition history_of :: "chat_sessions \<Rightarrow> string \<Rightarrow> turn list" where
  "history_of db session_id =
     (case db session_id of Some (Some h) \<Rightarrow> h | _ \<Rightarrow> [])"

section \<open>Properties\<close>

text \<open>A text whose \<open>lstrip()\<close> is empty: nothing but whitespace.\<close>

definition blank :: "string \<Rightarrow> bool" where
  "blank w = (lstrip w = [])"

text \<open>Whether a text occurs in another (\<open>p in s\<close>).\<close>

definition occurs :: "string \<Rightarrow> string \<Rightarrow> bool" where
  "occurs p s = sublist p s"

text \<open>
  The characters at the ends of a fence and of a JSON object: no whitespace starts or
  ends with one of them.
\<close>

definition solid :: "char \<Rightarrow> bool" where
  "solid c = (c = CHR ''{'' \<or> c = CHR ''}'' \<or> c = CHR 0x60 \<or> c = CHR ''j'')"

text \<open>
  A sufficient test that a text \<open>w\<close> at the start of the result of a substitution of \<open>new\<close>
  for \<open>old\<close> was at the start of the text already: at each position of \<open>w\<close>, either
  \<open>new\<close> cannot stand there (then the character was copied), or the rest of \<open>w\<close> starts
  both \<open>new\<close> and \<open>old\<close>.
\<close>

fun keeps_prefix :: "string \<Rightarrow> string \<Rightarrow> string \<Rightarrow> bool" where
  "keeps_prefix old new [] = True"
| "keeps_prefix old new (x # w) =
     (keeps_prefix old new w
      \<and> ((\<not> prefix new (x # w) \<and> \<not> prefix (x # w) new)
         \<or> (prefix (x # w) new \<and> prefix (x # w) old)))"

definition is_text :: "pyval \<Rightarrow> bool" where
  "is_text v = (case v of PStr s \<Rightarrow> True | _ \<Rightarrow> False)"

text \<open>The normalised value is a list, and each of its elements a text.\<close>

definition list_of_texts :: "py_error + pyval list \<Rightarrow> bool" where
  "list_of_texts r = (case r of Inl err \<Rightarrow> False | Inr xs \<Rightarrow> list_all is_text xs)"

text \<open>
  A request for the session \<open>sid\<close> that was answered.
\<close>

definition answered :: "string \<Rightarrow> request \<Rightarrow> response \<Rightarrow> bool" where
  "answered sid req r = (sessionId req = Some sid \<and> (case r of Ok a \<Rightarrow> True | _ \<Rightarrow> False))"

text \<open>
  The statements an environment executes are reads: none changes \<open>chat_sessions\<close>.
\<close>

definition reads :: "env \<Rightarrow> bool" where
  "reads e = (\<forall>stmt db rows db'. execute e stmt db = Inr (rows, db') \<longrightarrow> db' = db)"

section \<open>An example environment\<close>

text \<open>
  For the examples below: what the model answers to nine questions, what \<open>json.loads\<close>,
  \<open>ast.literal_eval\<close> and \<open>str\<close> return on the texts and values that occur, and the rows
  of two statements, which are reads.  A question that is not listed times out; a text
  that is not listed is neither JSON nor a Python literal.
\<close>

definition lookup_in :: "('a \<times> 'b) list \<Rightarrow> 'b \<Rightarrow> 'a \<Rightarrow> 'b" where
  "lookup_in t dflt x = (case map_of t x of Some v \<Rightarrow> v | None \<Rightarrow> dflt)"

definition ask_json :: string where
  \<open>ask_json = ''{"action": "ask", "response": "What type of heating system?"}''\<close>

definition ask_null_json :: string where
  \<open>ask_null_json = ''{"action": "ask"}''\<close>

definition query_json :: string where
  \<open>query_json = ''{"action": "query", "sql_query": "SELECT description, solutions FROM boiler_fault_codes bf WHERE bf.model = 'Logic'", "manual_link": "http://x/manual.pdf"}''\<close>

definition no_rows_json :: string where
  \<open>no_rows_json = ''{"action": "query", "response": "", "sql_query": "SELECT description FROM boiler_fault_codes WHERE fault_code = 'F9'"}''\<close>

definition no_query_json :: string where
  \<open>no_query_json = ''{"action": "query", "response": "Looking it up."}''\<close>

definition fallback_null_json :: string where
  \<open>fallback_null_json = ''{"action": "fallback_reasoning", "response": null, "manual_link": "http://x/manual.pdf"}''\<close>

definition fenced :: "string \<Rightarrow> string" where
  "fenced j = ''```json'' @ [CHR 0x0A] @ j @ [CHR 0x0A] @ ''```''"

definition raw_statement :: string where
  "raw_statement =
     ''SELECT description, solutions FROM boiler_fault_codes bf WHERE bf.model = ''
     @ [CHR 0x27] @ ''Logic'' @ [CHR 0x27]"

definition no_rows_statement :: string where
  "no_rows_statement =
     ''SELECT description FROM boiler_fault_codes WHERE fault_code = ''
     @ [CHR 0x27] @ ''F9'' @ [CHR 0x27]"

definition query_dict :: "(string \<times> pyval) list" where
  "query_dict =
     [(''action'', PStr ''query''),
      (''sql_query'', PStr raw_statement),
      (''manual_link'', PStr ''http://x/manual.pdf'')]"

definition no_rows_dict :: "(string \<times> pyval) list" where
  "no_rows_dict =
     [(''action'', PStr ''query''),
      (''response'', PStr []),
      (''sql_query'', PStr no_rows_statement)]"

definition no_query_dict :: "(string \<times> pyval) list" where
  "no_query_dict = [(''action'', PStr ''query''), (''response'', PStr ''Looking it up.'')]"

definition fallback_null_dict :: "(string \<times> pyval) list" where
  "fallback_null_dict =
     [(''action'', PStr ''fallback_reasoning''),
      (''response'', PNone),
      (''manual_link'', PStr ''http://x/manual.pdf'')]"

definition ask_null_dict :: "(string \<times> pyval) list" where
  "ask_null_dict = [(''action'', PStr ''ask'')]"

definition fixed_statement :: string where
  "fixed_statement =
     ''SELECT description, solutions FROM boiler_fault_codes bf WHERE bf.model_name = ''
     @ [CHR 0x27] @ ''Logic'' @ [CHR 0x27]"

definition pump_row :: row where
  "pump_row =
     [(''description'', PStr ''Pump fault''),
      (''solutions'', PList [PStr ''Check pump'', PStr ''Check pressure''])]"

definition ask_dict :: "(string \<times> pyval) list" where
  "ask_dict = [(''action'', PStr ''ask''), (''response'', PStr ''What type of heating system?'')]"

definition list_literal :: string where
  "list_literal =
     ''['' @ [CHR 0x27] @ ''check pump'' @ [CHR 0x27] @ '','' @ [CHR 0x27] @ ''check pressure''
     @ [CHR 0x27] @ '']''"

definition type_error_literal :: string where
  "type_error_literal = ''{[1]: 2}''"

definition deep_text :: string where
  "deep_text = replicate 1000 (CHR ''['')"

definition forget_statement :: string where
  "forget_statement =
     ''DELETE FROM chat_sessions WHERE session_id = '' @ [CHR 0x27] @ ''s1'' @ [CHR 0x27]
     @ '' RETURNING session_id AS description''"

definition forget_json :: string where
  \<open>forget_json = ''{"action": "query", "sql_query": "DELETE FROM chat_sessions WHERE session_id = 's1' RETURNING session_id AS description"}''\<close>

definition forget_dict :: "(string \<times> pyval) list" where
  "forget_dict = [(''action'', PStr ''query''), (''sql_query'', PStr forget_statement)]"

definition llm_answers :: "(string \<times> (py_error + string)) list" where
  "llm_answers =
     [(''My boiler is cold'', Inr (fenced ask_json)),
      (''Ideal Logic F1'', Inr query_json),
      (''Ideal Logic F9'', Inr no_rows_json),
      (''What is wrong?'', Inr no_query_json),
      (''It rattles'', Inr fallback_null_json),
      (''Hm'', Inr ask_null_json),
      (''Hello'', Inr ''Sorry, I cannot help.''),
      (''Deep'', Inr deep_text),
      (''Forget me'', Inr forget_json)]"

definition json_values :: "(string \<times> (py_error + pyval)) list" where
  "json_values =
     [(ask_json, Inr (PDict ask_dict)),
      (ask_null_json, Inr (PDict ask_null_dict)),
      (query_json, Inr (PDict query_dict)),
      (no_rows_json, Inr (PDict no_rows_dict)),
      (no_query_json, Inr (PDict no_query_dict)),
      (fallback_null_json, Inr (PDict fallback_null_dict)),
      (forget_json, Inr (PDict forget_dict)),
      (deep_text, Inl RecursionError)]"

definition statement_rows :: "(string \<times> (py_error + row list)) list" where
  "statement_rows = [(fixed_statement, Inr [pump_row]), (no_rows_statement, Inr [])]"

definition literal_values :: "(string \<times> (py_error + pyval)) list" where
  "literal_values =
     [(list_literal, Inr (PList [PStr ''check pump'', PStr ''check pressure''])),
      (''[1, 2]'', Inr (PList [PInt 1, PInt 2])),
      (''42'', Inr (PInt 42)),
      (''pump'', Inl ValueError),
      (type_error_literal, Inl TypeError)]"

definition str_values :: "(pyval \<times> string) list" where
  "str_values = [(PNone, ''None''), (PInt 1, ''1''), (PInt 2, ''2'')]"

definition example_env :: env where
  "example_env =
     \<lparr> invoke = (\<lambda>q history. lookup_in llm_answers (Inl (OtherError ''timeout'')) q),
       loads = lookup_in json_values (Inl JSONDecodeError),
       execute =
         (\<lambda>stmt db.
            case lookup_in statement_rows (Inl (OtherError ''ProgrammingError'')) stmt of
              Inl err \<Rightarrow> Inl err
            | Inr rows \<Rightarrow> Inr (rows, db)),
       literal_eval = lookup_in literal_values (Inl SyntaxError),
       str_of = lookup_in str_values [] \<rparr>"

text \<open>
  The same, with a statement that writes: it deletes the row of the session \<open>s1\<close> and
  returns the key of the row it deleted.
\<close>

definition forgetful_env :: env where
  "forgetful_env =
     example_env
       \<lparr> execute :=
           (\<lambda>stmt db.
              if stmt = forget_statement then
                (if db ''s1'' = None then Inr ([], db)
                 else Inr ([[(''description'', PStr ''s1'')]], db(''s1'' := None)))
              else execute example_env stmt db) \<rparr>"

definition no_sessions :: chat_sessions where
  "no_sessions = Map.empty"

definition example_request :: "string \<Rightarrow> request" where
  "example_request q = \<lparr> question = Some q, sessionId = Some ''s1'' \<rparr>"

definition pump_reply :: string where
  "pump_reply =
     ''Pump fault'' @ [CHR 0x0A, CHR 0x0A] @ ''Recommended steps:'' @ [CHR 0x0A]
     @ ''- Check pump'' @ [CHR 0x0A] @ ''- Check pressure''
     @ manual_note @ ''http://x/manual.pdf''"

definition query_answer :: answer where
  "query_answer =
     \<lparr> a_response = PStr pump_reply,
       a_sql_query = PStr fixed_statement,
       a_session_id = ''s1'',
       a_manual_link = PStr ''http://x/manual.pdf'',
       a_regulation_ref = PStr [],
       a_action = PStr ''query'' \<rparr>"

definition example_steps :: "(env \<times> request) list" where
  "example_steps =
     [(example_env, example_request ''My boiler is cold''),
      (example_env, example_request ''Hello''),
      (example_env, example_request ''Ideal Logic F1'')]"

definition forgetful_steps :: "(env \<times> request) list" where
  "forgetful_steps =
     [(forgetful_env, example_request ''My boiler is cold''),
      (forgetful_env, example_request ''Forget me'')]"

definition ask_body :: string where
  \<open>ask_body = ''"action": "ask", "response": "What type of heating system?"''\<close>

definition ask_decision :: decision where
  "ask_decision =
     \<lparr> action = PStr ''ask'',
       response_text = PStr ''What type of heating system?'',
       context_update = PDict [],
       sql_query = PNone,
       manual_link = PStr [],
       regulation_ref = PStr [] \<rparr>"

section \<open>Shared lemmas\<close>

lemma fetch_history: "fst (fetch_or_create sid db) = history_of db sid"
  by (simp add: fetch_or_create_def history_of_def split: option.splits)

lemma fetch_history_after: "history_of (snd (fetch_or_create sid db)) s = history_of db s"
  by (simp add: fetch_or_create_def history_of_def split: option.splits)

lemma history_of_upd:
  "history_of (db(s \<mapsto> Some h)) sid = (if sid = s then h else history_of db sid)"
  by (simp add: history_of_def)

lemma fetch_row: "snd (fetch_or_create sid db) sid \<noteq> None"
  by (simp add: fetch_or_create_def split: option.splits)

lemma history_of_update:
  "history_of (update_history s h db) sid
     = (if sid = s \<and> db s \<noteq> None then h else history_of db sid)"
  by (auto simp: update_history_def history_of_def)

text \<open>What a request that was answered went through.\<close>

lemma answered_steps:
  assumes "text_to_sql e req db = (Ok a, db')"
  shows "\<exists>sid q raw d db2.
           sessionId req = Some sid \<and> sid \<noteq> [] \<and> question req = Some q \<and> q \<noteq> []
           \<and> invoke e q (history_of db sid @ [user_turn q]) = Inr raw
           \<and> parse e raw = Inr d
           \<and> act e d (snd (fetch_or_create sid db)) = Inr (a_response a, a_sql_query a, db2)
           \<and> a_session_id a = sid \<and> a_manual_link a = manual_link d
           \<and> a_regulation_ref a = regulation_ref d \<and> a_action a = action d
           \<and> db' = update_history sid
                      (history_of db sid @ [user_turn q, assistant_turn (a_response a)]) db2"
proof -
  from assms obtain sid q where
    sq: "sessionId req = Some sid" "sid \<noteq> []" "question req = Some q" "q \<noteq> []"
    by (auto simp: text_to_sql_def split: option.splits if_splits)
  obtain h0 db1 where f: "fetch_or_create sid db = (h0, db1)"
    by (cases "fetch_or_create sid db")
  with fetch_history[of sid db] have h0: "h0 = history_of db sid"
    by simp
  from assms sq f h0 show ?thesis
    by (auto simp: text_to_sql_def transaction_body_def Let_def
             split: sum.splits if_splits prod.splits)
qed

text \<open>Acting on a decision changes the table only by the statement it executes.\<close>

lemma act_reads:
  "reads e \<Longrightarrow> act e d db = Inr (reply, q, db') \<Longrightarrow> db' = db"
  by (auto simp: act_def reads_def split: if_splits sum.splits pyval.splits list.splits prod.splits)

lemma parse_steps:
  assumes "parse e raw = Inr d"
  shows "\<exists>j. loads e (json_str raw) = Inr (PDict j)
           \<and> action d = dict_get j ''action'' PNone
           \<and> response_text d = dict_get j ''response'' PNone
           \<and> manual_link d = dict_get j ''manual_link'' (PStr [])
           \<and> regulation_ref d = dict_get j ''regulation_ref'' (PStr [])
           \<and> fix_sql_query (dict_get j ''sql_query'' PNone) = Inr (sql_query d)"
  using assms
  by (auto simp: parse_def decision_of_def split: sum.splits pyval.splits)

text \<open>A substitution by a text that is not shorter does not shorten.\<close>

lemma py_replace_length:
  "length old \<le> length new \<Longrightarrow> length s \<le> length (py_replace old new s)"
  by (induction old new s rule: py_replace.induct) (auto simp: le_Suc_eq)

lemma sql_alias_fix_length: "length s \<le> length (sql_alias_fix s)"
proof -
  have "length s \<le> length (py_replace '' bf.model '' '' bf.model_name '' s)"
    by (rule py_replace_length) simp
  also have "\<dots> \<le> length (py_replace '' bf.model,'' '' bf.model_name,''
                          (py_replace '' bf.model '' '' bf.model_name '' s))"
    by (rule py_replace_length) simp
  also have "\<dots> \<le> length (sql_alias_fix s)"
    unfolding sql_alias_fix_def by (rule py_replace_length) simp
  finally show ?thesis .
qed

lemma sql_alias_fix_nonempty: "s \<noteq> [] \<Longrightarrow> sql_alias_fix s \<noteq> []"
  using sql_alias_fix_length[of s] by auto

lemma fix_sql_query_cases:
  "fix_sql_query v = Inr w \<Longrightarrow>
     (truthy v \<and> (\<exists>s. v = PStr s \<and> s \<noteq> [] \<and> w = PStr (sql_alias_fix s)))
     \<or> (\<not> truthy v \<and> w = v)"
  by (auto simp: fix_sql_query_def split: if_splits pyval.splits)

text \<open>A request whose transaction raises leaves the table as it was.\<close>

lemma raise_rolls_back:
  "text_to_sql e req db = (ServerError err, db') \<Longrightarrow> db' = db"
  by (auto simp: text_to_sql_def transaction_body_def Let_def
           split: option.splits if_splits prod.splits body_exit.splits sum.splits)

section \<open>C1: a request that fails persists nothing\<close>

text \<open>
  C1 says that whenever a stage fails after the transaction was opened, and in particular
  when the model's text does not decode as JSON, the insert of a session that was not
  known is rolled back with the rest.  The handler leaves the transaction block of a
  text that does not decode by \<open>return\<close> (line 218), so the block commits: for the
  session \<open>s1\<close>, unknown before, and the answer \<open>Sorry, I cannot help.\<close> of the model, the
  response is the decode failure and the table holds a row for \<open>s1\<close> afterwards, with
  an empty history.
\<close>

theorem decode_failure_keeps_new_session:
  "fst (text_to_sql example_env (example_request ''Hello'') no_sessions)
     = DecodeFailure ''Sorry, I cannot help.''
   \<and> no_sessions ''s1'' = None
   \<and> snd (text_to_sql example_env (example_request ''Hello'') no_sessions) ''s1''
     = Some (Some [])"
  by code_simp

section \<open>C2: the fields of the answer\<close>

text \<open>
  C2 as stated has \<open>sql_query\<close> be \<open>N/A\<close> whenever no statement was executed, also when
  the action is \<open>query\<close> and the decision has no query text.  There the handler answers
  with the decision's own \<open>sql_query\<close>: for \<open>{"action": "query", "response": "Looking it
  up."}\<close> it is \<open>null\<close>.
\<close>

theorem answer_sql_query_counterexample:
  "fst (text_to_sql example_env (example_request ''What is wrong?'') no_sessions)
     = Ok \<lparr> a_response = PStr ''Unable to generate a database query.'',
            a_sql_query = PNone,
            a_session_id = ''s1'',
            a_manual_link = PStr [],
            a_regulation_ref = PStr [],
            a_action = PStr ''query'' \<rparr>"
  by code_simp

text \<open>
  C2, amended: an answered request returns the final reply, which is the reply computed
  for the decision and the assistant turn the update writes when the row of the session
  is still there; the session id; \<open>manual_link\<close>, \<open>regulation_ref\<close> and the action as
  decoded; and \<open>sql_query\<close>: for the action \<open>query\<close> with a query text, the rewritten
  text, which was executed; for the action \<open>query\<close> without one, the decision's own
  empty \<open>sql_query\<close>; for every other action, \<open>N/A\<close>.
\<close>

theorem answer_fields:
  assumes "text_to_sql e req db = (Ok a, db')"
  shows "\<exists>sid q raw j d db1 db2.
           sessionId req = Some sid \<and> question req = Some q
           \<and> invoke e q (history_of db sid @ [\<lparr>role = ''user'', content = PStr q\<rparr>]) = Inr raw
           \<and> loads e (json_str raw) = Inr (PDict j)
           \<and> decision_of (PDict j) = Inr d
           \<and> db1 = snd (fetch_or_create sid db)
           \<and> act e d db1 = Inr (a_response a, a_sql_query a, db2)
           \<and> db' = (if db2 sid = None then db2
                    else db2(sid \<mapsto> Some (history_of db sid
                           @ [\<lparr>role = ''user'', content = PStr q\<rparr>,
                              \<lparr>role = ''assistant'', content = a_response a\<rparr>])))
           \<and> a_session_id a = sid
           \<and> a_manual_link a = dict_get j ''manual_link'' (PStr [])
           \<and> a_regulation_ref a = dict_get j ''regulation_ref'' (PStr [])
           \<and> a_action a = dict_get j ''action'' PNone
           \<and> (if a_action a = PStr ''query'' then
                 (if truthy (dict_get j ''sql_query'' PNone) then
                    (\<exists>s rows. dict_get j ''sql_query'' PNone = PStr s
                       \<and> a_sql_query a = PStr (sql_alias_fix s)
                       \<and> execute e (sql_alias_fix s) db1 = Inr (rows, db2))
                  else a_sql_query a = dict_get j ''sql_query'' PNone \<and> db2 = db1)
               else a_sql_query a = PStr ''N/A'' \<and> db2 = db1)"
proof -
  from answered_steps[OF assms] obtain sid q raw d db2 where
    st: "sessionId req = Some sid" "question req = Some q"
        "invoke e q (history_of db sid @ [user_turn q]) = Inr raw"
        "parse e raw = Inr d"
        "act e d (snd (fetch_or_create sid db)) = Inr (a_response a, a_sql_query a, db2)"
        "a_session_id a = sid" "a_manual_link a = manual_link d"
        "a_regulation_ref a = regulation_ref d" "a_action a = action d"
        "db' = update_history sid
                 (history_of db sid @ [user_turn q, assistant_turn (a_response a)]) db2"
    by blast
  define db1 where "db1 = snd (fetch_or_create sid db)"
  from parse_steps[OF st(4)] obtain j where
    j: "loads e (json_str raw) = Inr (PDict j)"
       "action d = dict_get j ''action'' PNone"
       "manual_link d = dict_get j ''manual_link'' (PStr [])"
       "regulation_ref d = dict_get j ''regulation_ref'' (PStr [])"
       "fix_sql_query (dict_get j ''sql_query'' PNone) = Inr (sql_query d)"
    by blast
  from st(4) j(1) have dec: "decision_of (PDict j) = Inr d"
    by (simp add: parse_def)
  have inv: "invoke e q (history_of db sid @ [\<lparr>role = ''user'', content = PStr q\<rparr>]) = Inr raw"
    using st(3) by (simp add: user_turn_def)
  have upd: "db' = (if db2 sid = None then db2
                    else db2(sid \<mapsto> Some (history_of db sid
                           @ [\<lparr>role = ''user'', content = PStr q\<rparr>,
                              \<lparr>role = ''assistant'', content = a_response a\<rparr>])))"
    using st(10) by (simp add: update_history_def user_turn_def assistant_turn_def)
  have act1: "act e d db1 = Inr (a_response a, a_sql_query a, db2)"
    using st(5) by (simp add: db1_def)
  have sq: "if a_action a = PStr ''query'' then
                 (if truthy (dict_get j ''sql_query'' PNone) then
                    (\<exists>s rows. dict_get j ''sql_query'' PNone = PStr s
                       \<and> a_sql_query a = PStr (sql_alias_fix s)
                       \<and> execute e (sql_alias_fix s) db1 = Inr (rows, db2))
                  else a_sql_query a = dict_get j ''sql_query'' PNone \<and> db2 = db1)
               else a_sql_query a = PStr ''N/A'' \<and> db2 = db1"
  proof (cases "action d = PStr ''query''")
    case False
    with act1 have "a_sql_query a = PStr ''N/A'' \<and> db2 = db1"
      by (auto simp: act_def split: if_splits sum.splits)
    with False st(9) show ?thesis by simp
  next
    case True
    from fix_sql_query_cases[OF j(5)] show ?thesis
    proof
      assume "truthy (dict_get j ''sql_query'' PNone)
              \<and> (\<exists>s. dict_get j ''sql_query'' PNone = PStr s \<and> s \<noteq> []
                       \<and> sql_query d = PStr (sql_alias_fix s))"
      then obtain s where s: "truthy (dict_get j ''sql_query'' PNone)"
          "dict_get j ''sql_query'' PNone = PStr s" "s \<noteq> []"
          "sql_query d = PStr (sql_alias_fix s)"
        by blast
      from act1 True s(4) sql_alias_fix_nonempty[OF s(3)]
      have "a_sql_query a = PStr (sql_alias_fix s)
            \<and> (\<exists>rows. execute e (sql_alias_fix s) db1 = Inr (rows, db2))"
        by (auto simp: act_def split: sum.splits list.splits prod.splits)
      with True st(9) s show ?thesis by auto
    next
      assume f: "\<not> truthy (dict_get j ''sql_query'' PNone)
                 \<and> sql_query d = dict_get j ''sql_query'' PNone"
      with act1 True have "a_sql_query a = dict_get j ''sql_query'' PNone \<and> db2 = db1"
        by (auto simp: act_def)
      with True st(9) f show ?thesis by simp
    qed
  qed
  from st(1,2,6,7,8,9) j(1,2,3,4) dec inv upd act1 sq db1_def show ?thesis
    by (intro exI[of _ sid] exI[of _ q] exI[of _ raw] exI[of _ j] exI[of _ d]
              exI[of _ db1] exI[of _ db2]) simp
qed

theorem answer_fields_witness:
  "text_to_sql example_env (example_request ''Ideal Logic F1'') no_sessions
     = (Ok query_answer, snd (text_to_sql example_env (example_request ''Ideal Logic F1'') no_sessions))
   \<and> a_response query_answer =
       PStr (''Pump fault'' @ [CHR 0x0A, CHR 0x0A] @ ''Recommended steps:'' @ [CHR 0x0A]
             @ ''- Check pump'' @ [CHR 0x0A] @ ''- Check pressure''
             @ [CHR 0x0A, CHR 0x0A, CHR 0xEF, CHR 0xA3, CHR 0xBF, CHR 0xC3, CHR 0xBC, CHR 0xC3,
                CHR 0xAC, CHR 0xC3, CHR 0xB1] @ '' Manual: '' @ ''http://x/manual.pdf'')
   \<and> a_sql_query query_answer = PStr fixed_statement
   \<and> a_action query_answer = PStr ''query''
   \<and> a_manual_link query_answer = PStr ''http://x/manual.pdf''
   \<and> snd (text_to_sql example_env (example_request ''Ideal Logic F1'') no_sessions) ''s1''
       = Some (Some [\<lparr>role = ''user'', content = PStr ''Ideal Logic F1''\<rparr>,
                     \<lparr>role = ''assistant'', content = a_response query_answer\<rparr>])"
proof -
  have f: "fst (text_to_sql example_env (example_request ''Ideal Logic F1'') no_sessions)
             = Ok query_answer"
    by code_simp
  then have p: "text_to_sql example_env (example_request ''Ideal Logic F1'') no_sessions
             = (Ok query_answer,
                snd (text_to_sql example_env (example_request ''Ideal Logic F1'') no_sessions))"
    by (simp add: prod_eq_iff)
  have e: "history_of no_sessions ''s1'' = []"
    and n: "snd (fetch_or_create ''s1'' no_sessions) ''s1'' = Some (Some [])"
    by code_simp+
  have r: "reads example_env"
    by (auto simp: reads_def example_env_def split: sum.splits)
  from answer_fields[OF p] obtain sid q raw j d db1 db2 where
    w: "sessionId (example_request ''Ideal Logic F1'') = Some sid"
       "question (example_request ''Ideal Logic F1'') = Some q"
       "db1 = snd (fetch_or_create sid no_sessions)"
       "act example_env d db1 = Inr (a_response query_answer, a_sql_query query_answer, db2)"
       "snd (text_to_sql example_env (example_request ''Ideal Logic F1'') no_sessions)
          = (if db2 sid = None then db2
             else db2(sid \<mapsto> Some (history_of no_sessions sid
                    @ [\<lparr>role = ''user'', content = PStr q\<rparr>,
                       \<lparr>role = ''assistant'', content = a_response query_answer\<rparr>])))"
    by blast
  from w(1,2) have sq: "sid = ''s1''" "q = ''Ideal Logic F1''"
    by (simp_all add: example_request_def)
  from act_reads[OF r w(4)] have "db2 = db1"
    by simp
  with w(3,5) sq e n
  have "snd (text_to_sql example_env (example_request ''Ideal Logic F1'') no_sessions) ''s1''
       = Some (Some [\<lparr>role = ''user'', content = PStr ''Ideal Logic F1''\<rparr>,
                     \<lparr>role = ''assistant'', content = a_response query_answer\<rparr>])"
    by simp
  moreover have "a_response query_answer =
       PStr (''Pump fault'' @ [CHR 0x0A, CHR 0x0A] @ ''Recommended steps:'' @ [CHR 0x0A]
             @ ''- Check pump'' @ [CHR 0x0A] @ ''- Check pressure''
             @ [CHR 0x0A, CHR 0x0A, CHR 0xEF, CHR 0xA3, CHR 0xBF, CHR 0xC3, CHR 0xBC, CHR 0xC3,
                CHR 0xAC, CHR 0xC3, CHR 0xB1] @ '' Manual: '' @ ''http://x/manual.pdf'')"
    "a_sql_query query_answer = PStr fixed_statement"
    "a_action query_answer = PStr ''query''"
    "a_manual_link query_answer = PStr ''http://x/manual.pdf''"
    by code_simp+
  ultimately show ?thesis
    using p by blast
qed

section \<open>C3: the solutions column as a list\<close>

text \<open>
  C3 as stated has the normalised value always be a list of texts, and a text whose parse
  fails become the list of that text.  A text that parses as a list literal becomes that
  list whatever its elements are: the column value \<open>[1, 2]\<close> (a text) becomes the list
  of the numbers 1 and 2.  And only \<open>ValueError\<close> and \<open>SyntaxError\<close> are caught: on the
  column value \<open>{[1]: 2}\<close> the parse raises \<open>TypeError\<close>, and so does the normalisation.
\<close>

theorem solutions_not_texts_counterexample:
  "literal_eval example_env ''[1, 2]'' = Inr (PList [PInt 1, PInt 2])
   \<and> solutions_list example_env (PStr ''[1, 2]'') = Inr [PInt 1, PInt 2]
   \<and> \<not> list_of_texts (solutions_list example_env (PStr ''[1, 2]''))
   \<and> literal_eval example_env ''{[1]: 2}'' = Inl TypeError
   \<and> solutions_list example_env (PStr ''{[1]: 2}'') = Inl TypeError
   \<and> \<not> list_of_texts (solutions_list example_env (PStr ''{[1]: 2}''))"
  by code_simp

text \<open>
  C3, amended: normalisation yields an ordered list, or raises the exception of the
  parse when that is neither \<open>ValueError\<close> nor \<open>SyntaxError\<close>.  A native list passes
  through unchanged; a text that parses as a list literal becomes that list; a text whose
  parse yields something else, or fails with \<open>ValueError\<close> or \<open>SyntaxError\<close>, becomes
  the one-element list of the text itself; a text whose parse fails with another
  exception raises that exception; a value that is neither a list nor a text becomes the
  empty list.  These are all the cases.  The elements are not checked: the result is a
  list of texts whenever the elements of the native list, or of the list parsed, are
  texts.
\<close>

theorem solutions_list_normalised:
  "solutions_list e (PList xs) = Inr xs
   \<and> (literal_eval e s = Inr (PList xs) \<longrightarrow> solutions_list e (PStr s) = Inr xs)
   \<and> (literal_eval e s = Inr v \<and> (\<forall>zs. v \<noteq> PList zs)
        \<longrightarrow> solutions_list e (PStr s) = Inr [PStr s])
   \<and> (literal_eval e s = Inl ValueError \<or> literal_eval e s = Inl SyntaxError
        \<longrightarrow> solutions_list e (PStr s) = Inr [PStr s])
   \<and> (literal_eval e s = Inl err \<and> err \<noteq> ValueError \<and> err \<noteq> SyntaxError
        \<longrightarrow> solutions_list e (PStr s) = Inl err)
   \<and> ((\<forall>zs. v \<noteq> PList zs) \<and> (\<forall>t. v \<noteq> PStr t) \<longrightarrow> solutions_list e v = Inr [])
   \<and> ((\<exists>ys. solutions_list e w = Inr ys)
        \<or> (\<exists>t err. w = PStr t \<and> literal_eval e t = Inl err
                \<and> err \<noteq> ValueError \<and> err \<noteq> SyntaxError
                \<and> solutions_list e w = Inl err))
   \<and> (solutions_list e (PList xs) = Inr ys \<and> (\<forall>x\<in>set xs. \<exists>t. x = PStr t)
        \<longrightarrow> (\<forall>y\<in>set ys. \<exists>t. y = PStr t))
   \<and> (solutions_list e (PStr s) = Inr ys
        \<and> (\<forall>zs. literal_eval e s = Inr (PList zs) \<longrightarrow> (\<forall>z\<in>set zs. \<exists>t. z = PStr t))
        \<longrightarrow> (\<forall>y\<in>set ys. \<exists>t. y = PStr t))"
proof (intro conjI)
  show "(\<exists>ys. solutions_list e w = Inr ys)
        \<or> (\<exists>t err. w = PStr t \<and> literal_eval e t = Inl err
                \<and> err \<noteq> ValueError \<and> err \<noteq> SyntaxError
                \<and> solutions_list e w = Inl err)"
    by (cases w) (auto simp: solutions_list_def split: pyval.splits sum.splits)
  show "(\<forall>zs. v \<noteq> PList zs) \<and> (\<forall>t. v \<noteq> PStr t) \<longrightarrow> solutions_list e v = Inr []"
    by (cases v) (auto simp: solutions_list_def)
  show "literal_eval e s = Inr v \<and> (\<forall>zs. v \<noteq> PList zs)
        \<longrightarrow> solutions_list e (PStr s) = Inr [PStr s]"
    by (cases v) (auto simp: solutions_list_def)
qed (auto simp: solutions_list_def split: pyval.splits sum.splits)

theorem solutions_list_normalised_witness:
  "solutions_list example_env (PList [PStr ''Check pump'', PStr ''Check pressure''])
     = Inr [PStr ''Check pump'', PStr ''Check pressure'']
   \<and> solutions_list example_env (PStr list_literal)
     = Inr [PStr ''check pump'', PStr ''check pressure'']
   \<and> solutions_list example_env (PStr ''42'') = Inr [PStr ''42'']
   \<and> solutions_list example_env (PStr ''pump'') = Inr [PStr ''pump'']
   \<and> solutions_list example_env (PStr ''not-a-list('') = Inr [PStr ''not-a-list('']
   \<and> solutions_list example_env (PStr ''{[1]: 2}'') = Inl TypeError
   \<and> solutions_list example_env PNone = Inr []"
proof -
  have l: "literal_eval example_env list_literal
             = Inr (PList [PStr ''check pump'', PStr ''check pressure''])"
    by code_simp
  have n: "literal_eval example_env ''42'' = Inr (PInt 42)" "\<forall>zs. PInt 42 \<noteq> PList zs"
    by code_simp simp
  have v: "literal_eval example_env ''pump'' = Inl ValueError"
    by code_simp
  have x: "literal_eval example_env ''not-a-list('' = Inl SyntaxError"
    by code_simp
  have t: "literal_eval example_env ''{[1]: 2}'' = Inl TypeError"
    "TypeError \<noteq> ValueError" "TypeError \<noteq> SyntaxError"
    by code_simp simp_all
  have o: "\<forall>zs. PNone \<noteq> PList zs" "\<forall>t. PNone \<noteq> PStr t"
    by simp_all
  note a = solutions_list_normalised
             [where e = example_env and s = list_literal
                and xs = "[PStr ''check pump'', PStr ''check pressure'']"]
  note b = solutions_list_normalised
             [where e = example_env and xs = "[PStr ''Check pump'', PStr ''Check pressure'']"]
  note c = solutions_list_normalised [where e = example_env and s = "''42''" and v = "PInt 42"]
  note d = solutions_list_normalised [where e = example_env and s = "''pump''"]
  note f = solutions_list_normalised [where e = example_env and s = "''not-a-list(''"]
  note g = solutions_list_normalised [where e = example_env and v = PNone]
  note h = solutions_list_normalised
             [where e = example_env and s = "''{[1]: 2}''" and err = TypeError]
  from a l have "solutions_list example_env (PStr list_literal)
                   = Inr [PStr ''check pump'', PStr ''check pressure'']"
    by blast
  moreover from b have "solutions_list example_env (PList [PStr ''Check pump'', PStr ''Check pressure''])
     = Inr [PStr ''Check pump'', PStr ''Check pressure'']"
    by blast
  moreover from c n have "solutions_list example_env (PStr ''42'') = Inr [PStr ''42'']"
    by blast
  moreover from d v have "solutions_list example_env (PStr ''pump'') = Inr [PStr ''pump'']"
    by blast
  moreover from f x have "solutions_list example_env (PStr ''not-a-list('') = Inr [PStr ''not-a-list('']"
    by blast
  moreover from h t have "solutions_list example_env (PStr ''{[1]: 2}'') = Inl TypeError"
    by blast
  moreover from g o have "solutions_list example_env PNone = Inr []"
    by blast
  ultimately show ?thesis
    by blast
qed

section \<open>C4: the three fence styles\<close>

text \<open>Stripping: a text none of the encodings starts is left as it is, and a blank
  text in front is stripped with the rest.\<close>

lemma strip_front_none:
  "\<forall>c\<in>set codes. \<not> prefix c s \<Longrightarrow> strip_front codes s = s"
  by (subst strip_front.simps) (simp add: find_None_iff[THEN iffD2])

lemma find_prefix_unique:
  assumes pf: "\<forall>a\<in>set codes. \<forall>b\<in>set codes. prefix a b \<longrightarrow> a = b"
    and w: "w \<in> set codes" "prefix w s"
  shows "find (\<lambda>c. prefix c s) codes = Some w"
proof (cases "find (\<lambda>c. prefix c s) codes")
  case None
  with w show ?thesis
    by (auto simp: find_None_iff)
next
  case (Some w')
  then have w': "w' \<in> set codes" "prefix w' s"
    by (auto simp: find_Some_iff)
  from w(2) w'(2) have "prefix w w' \<or> prefix w' w"
    by (rule prefix_same_cases)
  with pf w(1) w'(1) have "w' = w"
    by blast
  with Some show ?thesis
    by simp
qed

lemma strip_front_append:
  "\<forall>a\<in>set codes. \<forall>b\<in>set codes. prefix a b \<longrightarrow> a = b \<Longrightarrow> [] \<notin> set codes \<Longrightarrow>
     strip_front codes s = [] \<Longrightarrow> strip_front codes (s @ t) = strip_front codes t"
proof (induction codes s rule: strip_front.induct)
  case (1 codes s)
  note pf = "1.prems"(1) and ne = "1.prems"(2) and blank = "1.prems"(3)
  show ?case
  proof (cases "find (\<lambda>w. prefix w s) codes")
    case None
    with blank have "s = []"
      by (subst (asm) strip_front.simps) simp
    then show ?thesis
      by simp
  next
    case (Some w)
    then have w: "w \<in> set codes" "prefix w s"
      by (auto simp: find_Some_iff)
    with ne have wne: "w \<noteq> []"
      by auto
    from blank Some wne have rest: "strip_front codes (drop (length w) s) = []"
      by (subst (asm) strip_front.simps) simp
    from w(2) have "prefix w (s @ t)"
      by (simp add: prefix_prefix)
    with find_prefix_unique[OF pf w(1)] have f: "find (\<lambda>c. prefix c (s @ t)) codes = Some w"
      by simp
    from w(2) have len: "length w \<le> length s"
      by (rule prefix_length_le)
    have "strip_front codes (s @ t) = strip_front codes (drop (length w) (s @ t))"
      using f wne by (subst strip_front.simps) simp
    also have "\<dots> = strip_front codes (drop (length w) s @ t)"
      using len by simp
    also have "\<dots> = strip_front codes t"
      using "1.IH"[OF Some wne pf ne rest] .
    finally show ?thesis .
  qed
qed

lemma whitespace_prefix_free:
  "\<forall>a\<in>set whitespace. \<forall>b\<in>set whitespace. prefix a b \<longrightarrow> a = b"
  by (simp add: whitespace_def)

lemma whitespace_suffix_free:
  "\<forall>a\<in>set (map rev whitespace). \<forall>b\<in>set (map rev whitespace). prefix a b \<longrightarrow> a = b"
  by (simp add: whitespace_def)

lemma whitespace_nonempty: "[] \<notin> set whitespace" "[] \<notin> set (map rev whitespace)"
  by (simp_all add: whitespace_def)


lemma strip_front_Nil: "[] \<notin> set codes \<Longrightarrow> strip_front codes [] = []"
  by (rule strip_front_none) auto

lemma strip_front_code:
  assumes pf: "\<forall>a\<in>set codes. \<forall>b\<in>set codes. prefix a b \<longrightarrow> a = b"
    and ne: "[] \<notin> set codes" and c: "c \<in> set codes"
  shows "strip_front codes c = []"
proof -
  from c ne have cne: "c \<noteq> []"
    by auto
  have f: "find (\<lambda>w. prefix w c) codes = Some c"
    by (rule find_prefix_unique[OF pf c]) simp
  from ne have e: "strip_front codes [] = []"
    by (rule strip_front_Nil)
  show ?thesis
    using f cne e by (subst strip_front.simps) simp
qed

text \<open>A blank text is a sequence of whitespace encodings, so it is blank from its end too.\<close>

lemma blank_concat:
  "strip_front codes w = [] \<Longrightarrow> \<exists>cs. set cs \<subseteq> set codes \<and> w = concat cs"
proof (induction codes w rule: strip_front.induct)
  case (1 codes s)
  show ?case
  proof (cases "find (\<lambda>w. prefix w s) codes")
    case None
    with "1.prems" have "s = []"
      by (subst (asm) strip_front.simps) simp
    then have "set [] \<subseteq> set codes \<and> s = concat []"
      by simp
    then show ?thesis
      by blast
  next
    case (Some w)
    then have w: "w \<in> set codes" "prefix w s"
      by (auto simp: find_Some_iff)
    show ?thesis
    proof (cases "w = []")
      case True
      with "1.prems" Some have "s = []"
        by (subst (asm) strip_front.simps) simp
      then have "set [] \<subseteq> set codes \<and> s = concat []"
        by simp
      then show ?thesis
        by blast
    next
      case False
      from "1.prems" Some False have "strip_front codes (drop (length w) s) = []"
        by (subst (asm) strip_front.simps) simp
      from "1.IH"[OF Some False this] obtain cs where
        cs: "set cs \<subseteq> set codes" "drop (length w) s = concat cs"
        by blast
      from w(2) have "s = w @ drop (length w) s"
        by (auto simp: prefix_def)
      with cs w(1) have "set (w # cs) \<subseteq> set codes \<and> s = concat (w # cs)"
        by simp
      then show ?thesis
        by blast
    qed
  qed
qed

lemma concat_blank_rev:
  "set cs \<subseteq> set whitespace \<Longrightarrow> strip_front (map rev whitespace) (rev (concat cs)) = []"
proof (induction cs)
  case Nil
  show ?case
    using strip_front_Nil[OF whitespace_nonempty(2)] by simp
next
  case (Cons c cs)
  then have c: "rev c \<in> set (map rev whitespace)"
    by simp
  from Cons have "strip_front (map rev whitespace) (rev (concat cs)) = []"
    by simp
  then have "strip_front (map rev whitespace) (rev (concat cs) @ rev c)
               = strip_front (map rev whitespace) (rev c)"
    by (rule strip_front_append[OF whitespace_suffix_free whitespace_nonempty(2)])
  also have "\<dots> = []"
    by (rule strip_front_code[OF whitespace_suffix_free whitespace_nonempty(2) c])
  finally show ?case
    by simp
qed

lemma blank_rstrip: "blank w \<Longrightarrow> rstrip w = []"
proof -
  assume "blank w"
  then obtain cs where "set cs \<subseteq> set whitespace" "w = concat cs"
    unfolding blank_def lstrip_def using blank_concat by blast
  then show ?thesis
    by (simp add: rstrip_def concat_blank_rev)
qed

lemma lstrip_blank_append: "blank w \<Longrightarrow> lstrip (w @ s) = lstrip s"
  unfolding blank_def lstrip_def
  by (rule strip_front_append[OF whitespace_prefix_free whitespace_nonempty(1)])

lemma rstrip_append_blank: "blank w \<Longrightarrow> rstrip (s @ w) = rstrip s"
proof -
  assume "blank w"
  then have "strip_front (map rev whitespace) (rev w) = []"
    using blank_rstrip[of w] by (simp add: rstrip_def)
  then have "strip_front (map rev whitespace) (rev w @ rev s)
               = strip_front (map rev whitespace) (rev s)"
    by (rule strip_front_append[OF whitespace_suffix_free whitespace_nonempty(2)])
  then show ?thesis
    by (simp add: rstrip_def)
qed

lemma whitespace_not_solid:
  "\<forall>w\<in>set whitespace. w \<noteq> [] \<and> \<not> solid (hd w) \<and> \<not> solid (last w)"
  by (simp add: whitespace_def solid_def)

lemma lstrip_solid: "solid c \<Longrightarrow> lstrip (c # s) = c # s"
  unfolding lstrip_def
proof (rule strip_front_none, rule ballI)
  fix w assume "solid c" "w \<in> set whitespace"
  with whitespace_not_solid have "w \<noteq> []" "hd w \<noteq> c"
    by auto
  then show "\<not> prefix w (c # s)"
    by (cases w) auto
qed

lemma rstrip_solid: "solid c \<Longrightarrow> rstrip (s @ [c]) = s @ [c]"
proof -
  assume c: "solid c"
  have "strip_front (map rev whitespace) (c # rev s) = c # rev s"
  proof (rule strip_front_none, rule ballI)
    fix w assume "w \<in> set (map rev whitespace)"
    then obtain v where v: "v \<in> set whitespace" "w = rev v"
      by auto
    with whitespace_not_solid c have "v \<noteq> []" "last v \<noteq> c"
      by auto
    then have "hd w \<noteq> c" "w \<noteq> []"
      using v(2) by (simp_all add: hd_rev)
    then show "\<not> prefix w (c # rev s)"
      by (cases w) auto
  qed
  then show ?thesis
    by (simp add: rstrip_def)
qed

lemma strip_between:
  assumes "blank u" "blank v" "solid a" "solid b"
  shows "strip (u @ a # m @ b # v) = a # m @ [b]"
proof -
  have "lstrip (u @ a # m @ b # v) = a # m @ b # v"
    using assms(1,3) by (simp add: lstrip_blank_append lstrip_solid)
  moreover have "rstrip ((a # m @ [b]) @ v) = a # m @ [b]"
    using assms(2,4) rstrip_solid[of b "a # m"] rstrip_append_blank[of v "a # m @ [b]"] by simp
  ultimately show ?thesis
    by (simp add: strip_def)
qed

lemma blank_head:
  assumes "blank w" "solid c" "c \<noteq> CHR ''{''"
  shows "\<not> prefix (c # p) (w @ CHR ''{'' # t)"
proof (cases w)
  case Nil
  with assms(3) show ?thesis
    by simp
next
  case (Cons x xs)
  with assms(1) have "find (\<lambda>c. prefix c w) whitespace \<noteq> None"
    unfolding blank_def lstrip_def by (subst (asm) strip_front.simps) (auto split: option.splits)
  then obtain v where "v \<in> set whitespace" "prefix v w"
    by (auto simp: find_None_iff)
  with whitespace_not_solid Cons have "\<not> solid x"
    by (cases v) auto
  with assms(2) Cons show ?thesis
    by auto
qed


lemma blank_Nil: "blank []"
  unfolding blank_def lstrip_def by (rule strip_front_Nil[OF whitespace_nonempty(1)])

lemma suffix_last: "suffix p (s @ [c]) \<Longrightarrow> p \<noteq> [] \<Longrightarrow> last p = c"
  by (auto simp: suffix_def) (metis last_appendR last_snoc)

text \<open>What is left of a JSON object in a closed fence, behind the opening fence.\<close>

lemma fence_tail:
  assumes "blank a2" "blank a3"
  shows "\<not> prefix ''```'' (a2 @ (CHR ''{'' # body @ ''}'') @ a3 @ ''```'')"
    and "suffix ''```'' (a2 @ (CHR ''{'' # body @ ''}'') @ a3 @ ''```'')"
    and "strip (take (length (a2 @ (CHR ''{'' # body @ ''}'') @ a3 @ ''```'') - 3)
                 (a2 @ (CHR ''{'' # body @ ''}'') @ a3 @ ''```''))
           = CHR ''{'' # body @ ''}''"
proof -
  show "\<not> prefix ''```'' (a2 @ (CHR ''{'' # body @ ''}'') @ a3 @ ''```'')"
    using blank_head[OF assms(1), of "CHR 0x60" "[CHR 0x60, CHR 0x60]" "body @ ''}'' @ a3 @ ''```''"]
    by (simp add: solid_def)
  have "a2 @ (CHR ''{'' # body @ ''}'') @ a3 @ ''```''
          = (a2 @ (CHR ''{'' # body @ ''}'') @ a3) @ ''```''"
    by simp
  then show "suffix ''```'' (a2 @ (CHR ''{'' # body @ ''}'') @ a3 @ ''```'')"
    by (rule suffixI)
  have "take (length (a2 @ (CHR ''{'' # body @ ''}'') @ a3 @ ''```'') - 3)
                 (a2 @ (CHR ''{'' # body @ ''}'') @ a3 @ ''```'')
          = a2 @ CHR ''{'' # body @ CHR ''}'' # a3"
    by simp
  then show "strip (take (length (a2 @ (CHR ''{'' # body @ ''}'') @ a3 @ ''```'') - 3)
                 (a2 @ (CHR ''{'' # body @ ''}'') @ a3 @ ''```''))
           = CHR ''{'' # body @ ''}''"
    using strip_between[OF assms, of "CHR ''{''" "CHR ''}''" body] by (simp add: solid_def)
qed

lemma json_str_plain:
  assumes "blank u1" "blank u2"
  shows "json_str (u1 @ (CHR ''{'' # body @ ''}'') @ u2) = CHR ''{'' # body @ ''}''"
proof -
  have s0: "strip (u1 @ (CHR ''{'' # body @ ''}'') @ u2) = CHR ''{'' # body @ ''}''"
    using strip_between[OF assms, of "CHR ''{''" "CHR ''}''" body] by (simp add: solid_def)
  have p3: "\<not> suffix ''```'' (CHR ''{'' # body @ ''}'')"
    using suffix_last[of "''```''" "CHR ''{'' # body" "CHR ''}''"] by auto
  have f: "strip (CHR ''{'' # body @ ''}'') = CHR ''{'' # body @ ''}''"
    using strip_between[OF blank_Nil blank_Nil, of "CHR ''{''" "CHR ''}''" body]
    by (simp add: solid_def)
  show ?thesis
    unfolding json_str_def Let_def s0 using p3 f by simp
qed

lemma json_str_json_fence:
  assumes "blank a1" "blank a2" "blank a3" "blank a4"
  shows "json_str (a1 @ ''```json'' @ a2 @ (CHR ''{'' # body @ ''}'') @ a3 @ ''```'' @ a4)
           = CHR ''{'' # body @ ''}''"
proof -
  define s1 where "s1 = a2 @ (CHR ''{'' # body @ ''}'') @ a3 @ ''```''"
  have s0: "strip (a1 @ ''```json'' @ a2 @ (CHR ''{'' # body @ ''}'') @ a3 @ ''```'' @ a4)
              = ''```json'' @ s1"
    using strip_between[OF assms(1,4), of "CHR 0x60" "CHR 0x60"
            "[CHR 0x60, CHR 0x60] @ ''json'' @ a2 @ (CHR ''{'' # body @ ''}'') @ a3 @ [CHR 0x60, CHR 0x60]"]
    by (simp add: solid_def s1_def)
  have d: "drop 7 (''```json'' @ s1) = s1"
    by simp
  show ?thesis
    unfolding json_str_def s0
    using fence_tail[OF assms(2,3), of body] d
    by (simp add: Let_def s1_def del: take_append)
qed

lemma json_str_bare_fence:
  assumes "blank b1" "blank b2" "blank b3" "blank b4"
  shows "json_str (b1 @ ''```'' @ b2 @ (CHR ''{'' # body @ ''}'') @ b3 @ ''```'' @ b4)
           = CHR ''{'' # body @ ''}''"
proof -
  define s1 where "s1 = b2 @ (CHR ''{'' # body @ ''}'') @ b3 @ ''```''"
  have s0: "strip (b1 @ ''```'' @ b2 @ (CHR ''{'' # body @ ''}'') @ b3 @ ''```'' @ b4)
              = ''```'' @ s1"
    using strip_between[OF assms(1,4), of "CHR 0x60" "CHR 0x60"
            "[CHR 0x60, CHR 0x60] @ b2 @ (CHR ''{'' # body @ ''}'') @ b3 @ [CHR 0x60, CHR 0x60]"]
    by (simp add: solid_def s1_def)
  have j: "\<not> prefix ''```json'' (''```'' @ s1)"
    using blank_head[OF assms(2), of "CHR ''j''" "''son''" "body @ ''}'' @ b3 @ ''```''"]
    by (simp add: s1_def solid_def)
  show ?thesis
    unfolding json_str_def s0
    using fence_tail[OF assms(2,3), of body] j
    by (simp add: Let_def s1_def del: take_append)
qed

text \<open>
  C4: a JSON object, written \<open>{...}\<close>, is parsed to the same result (the same
  fields, or the same exception) in its three wrappings: bare, in a fence opened by
  \<open>```json\<close> and in a fence opened by \<open>```\<close>, each closed by \<open>```\<close>, with any
  whitespace around the object and around the fence.  The result is that of the object
  itself.
\<close>

theorem fence_style_irrelevant:
  assumes "blank u1" and "blank u2"
    and "blank a1" and "blank a2" and "blank a3" and "blank a4"
    and "blank b1" and "blank b2" and "blank b3" and "blank b4"
  shows "parse e (a1 @ ''```json'' @ a2 @ (CHR ''{'' # body @ ''}'') @ a3 @ ''```'' @ a4)
           = parse e (u1 @ (CHR ''{'' # body @ ''}'') @ u2)
         \<and> parse e (b1 @ ''```'' @ b2 @ (CHR ''{'' # body @ ''}'') @ b3 @ ''```'' @ b4)
           = parse e (u1 @ (CHR ''{'' # body @ ''}'') @ u2)
         \<and> parse e (u1 @ (CHR ''{'' # body @ ''}'') @ u2)
           = (case loads e (CHR ''{'' # body @ ''}'') of
                Inl err \<Rightarrow> Inl err
              | Inr llm_json \<Rightarrow> decision_of llm_json)"
proof -
  have "json_str (u1 @ (CHR ''{'' # body @ ''}'') @ u2) = CHR ''{'' # body @ ''}''"
    using assms(1,2) by (rule json_str_plain)
  moreover
  have "json_str (a1 @ ''```json'' @ a2 @ (CHR ''{'' # body @ ''}'') @ a3 @ ''```'' @ a4)
          = CHR ''{'' # body @ ''}''"
    using assms(3-6) by (rule json_str_json_fence)
  moreover
  have "json_str (b1 @ ''```'' @ b2 @ (CHR ''{'' # body @ ''}'') @ b3 @ ''```'' @ b4)
          = CHR ''{'' # body @ ''}''"
    using assms(7-10) by (rule json_str_bare_fence)
  ultimately show ?thesis
    unfolding parse_def by simp
qed

theorem fence_style_irrelevant_witness:
  "parse example_env (fenced ask_json) = Inr ask_decision
   \<and> parse example_env ('' '' @ ask_json @ [CHR 0x0A]) = Inr ask_decision
   \<and> parse example_env ([CHR 0xC2, CHR 0xA0] @ ''```'' @ ask_json @ ''```'' @ '' '')
       = Inr ask_decision"
proof -
  have j: "ask_json = CHR ''{'' # ask_body @ ''}''"
    by (simp add: ask_json_def ask_body_def)
  have b: "blank '' ''" "blank [CHR 0x0A]" "blank [CHR 0xC2, CHR 0xA0]"
    by code_simp+
  have v: "(case loads example_env ask_json of
              Inl err \<Rightarrow> Inl err
            | Inr llm_json \<Rightarrow> decision_of llm_json) = Inr ask_decision"
    by code_simp
  from fence_style_irrelevant
         [OF b(1) b(2) blank_Nil b(2) b(2) blank_Nil b(3) blank_Nil blank_Nil b(1),
          of example_env ask_body]
       v[unfolded j]
  show ?thesis
    by (simp add: fenced_def j)
qed

section \<open>C5: rewriting twice\<close>

text \<open>
  C5 as stated holds for every text.  Two occurrences of the first pattern that share a
  space are not both replaced: the search resumes behind the first.  The second is
  replaced when the rewrite runs again.
\<close>

theorem sql_alias_fix_twice_counterexample:
  "sql_alias_fix '' bf.model bf.model '' = '' bf.model_name bf.model ''
   \<and> sql_alias_fix (sql_alias_fix '' bf.model bf.model '') = '' bf.model_name bf.model_name ''
   \<and> sql_alias_fix (sql_alias_fix '' bf.model bf.model '') \<noteq> sql_alias_fix '' bf.model bf.model ''"
  by code_simp

text \<open>
  Where an occurrence of a pattern can come from in the result of a substitution: a text
  at the start of the result, a pattern across the end of a replacement, and a pattern
  in what was copied.
\<close>

lemma py_replace_prefix_back:
  "old \<noteq> [] \<Longrightarrow> keeps_prefix old new w \<Longrightarrow> prefix w (py_replace old new s) \<Longrightarrow> prefix w s"
proof (induction w arbitrary: s)
  case Nil
  then show ?case by simp
next
  case (Cons x w)
  show ?case
  proof (cases s)
    case Nil
    with Cons.prems show ?thesis
      by simp
  next
    case (Cons c cs)
    show ?thesis
    proof (cases "prefix old s")
      case True
      with Cons.prems(1) Cons have "py_replace old new s = new @ py_replace old new (drop (length old) s)"
        by simp
      with Cons.prems(3) have "prefix (x # w) (new @ py_replace old new (drop (length old) s))"
        by simp
      then have "prefix (x # w) new \<or> prefix new (x # w)"
        by (auto simp: prefix_append)
      with Cons.prems(2) have "prefix (x # w) old"
        by auto
      with True show ?thesis
        using prefix_order.trans by blast
    next
      case False
      with Cons.prems(1) Cons have "py_replace old new s = c # py_replace old new cs"
        by simp
      with Cons.prems(3) have xc: "x = c" and p: "prefix w (py_replace old new cs)"
        by simp_all
      from Cons.prems(2) have "keeps_prefix old new w"
        by simp
      from Cons.IH[OF Cons.prems(1) this p] xc Cons show ?thesis
        by simp
    qed
  qed
qed

lemma py_replace_avoids:
  assumes old: "old \<noteq> []" and p: "p \<noteq> []"
    and A: "\<not> sublist p new"
    and B: "\<forall>i\<in>set [1..<length p]. suffix (take i p) new \<longrightarrow>
              keeps_prefix old new (drop i p) \<and> sublist z (old @ drop i p)"
    and C: "keeps_prefix old new (tl p)"
    and D: "p = old \<or> sublist z p"
  shows "\<not> sublist z s \<Longrightarrow> \<not> sublist p (py_replace old new s)"
proof (induction s rule: length_induct)
  case (1 s)
  note IH = "1.IH" and z = "1.prems"
  show ?case
  proof (cases s)
    case Nil
    with old p show ?thesis
      by simp
  next
    case (Cons c cs)
    from z Cons have zcs: "\<not> sublist z cs"
      by (auto simp: sublist_Cons_right)
    show ?thesis
    proof (cases "prefix old s")
      case True
      define s' where "s' = drop (length old) s"
      from True have s: "s = old @ s'"
        by (auto simp: s'_def prefix_def)
      from old s have "length s' < length s"
        by simp
      moreover from z s have "\<not> sublist z s'"
        using sublist_append by blast
      ultimately have ih: "\<not> sublist p (py_replace old new s')"
        using IH by blast
      from True old Cons have r: "py_replace old new s = new @ py_replace old new s'"
        by (simp add: s'_def)
      show ?thesis
      proof
        assume "sublist p (py_replace old new s)"
        with r A ih obtain a b where ab: "p = a @ b" "suffix a new" "prefix b (py_replace old new s')"
          by (auto simp: sublist_append)
        from ab ih have "a \<noteq> []"
          by auto
        moreover from ab A have "b \<noteq> []"
          by auto
        ultimately have i: "length a \<in> set [1..<length p]" "take (length a) p = a" "drop (length a) p = b"
          using ab(1) by (auto simp: Suc_le_eq)
        with B ab(2) have k: "keeps_prefix old new b" "sublist z (old @ b)"
          by (metis)+
        from py_replace_prefix_back[OF old k(1) ab(3)] obtain t where "s' = b @ t"
          by (auto simp: prefix_def)
        with s have "s = (old @ b) @ t"
          by simp
        with k(2) have "sublist z s"
          by (metis sublist_append)
        with z show False
          by simp
      qed
    next
      case False
      with old Cons have r: "py_replace old new s = c # py_replace old new cs"
        by simp
      from Cons zcs IH have ih: "\<not> sublist p (py_replace old new cs)"
        by simp
      show ?thesis
      proof
        assume "sublist p (py_replace old new s)"
        with r ih have pp: "prefix p (c # py_replace old new cs)"
          by (simp add: sublist_Cons_right)
        from p obtain x p' where xp: "p = x # p'"
          by (cases p) auto
        with pp have "x = c" "prefix p' (py_replace old new cs)"
          by simp_all
        with py_replace_prefix_back[OF old, of new p' cs] C xp have "prefix p s"
          by (simp add: Cons)
        with D False z show False
          by (metis prefix_imp_sublist sublist_order.order.trans)
      qed
    qed
  qed
qed

lemma py_replace_id: "old \<noteq> [] \<Longrightarrow> \<not> sublist old s \<Longrightarrow> py_replace old new s = s"
  by (induction s) (auto simp: sublist_Cons_right)


lemma py_replace_removes:
  assumes "old \<noteq> []" and "\<not> sublist old new"
    and "\<forall>i\<in>set [1..<length old]. \<not> suffix (take i old) new"
    and "keeps_prefix old new (tl old)"
  shows "\<not> sublist old (py_replace old new s)"
proof -
  have z: "\<not> sublist (CHR ''x'' # s) s"
    using sublist_length_le by fastforce
  have B: "\<forall>i\<in>set [1..<length old]. suffix (take i old) new \<longrightarrow>
             keeps_prefix old new (drop i old) \<and> sublist (CHR ''x'' # s) (old @ drop i old)"
    using assms(3) by blast
  have D: "old = old \<or> sublist (CHR ''x'' # s) old"
    by simp
  from py_replace_avoids[OF assms(1) assms(1) assms(2) B assms(4) D z] show ?thesis .
qed

lemma py_replace_keeps_out:
  assumes "old \<noteq> []" and "p \<noteq> []" and "\<not> sublist p new"
    and "\<forall>i\<in>set [1..<length p]. \<not> suffix (take i p) new"
    and "keeps_prefix old new (tl p)"
  shows "\<not> sublist p s \<Longrightarrow> \<not> sublist p (py_replace old new s)"
proof -
  assume z: "\<not> sublist p s"
  have B: "\<forall>i\<in>set [1..<length p]. suffix (take i p) new \<longrightarrow>
             keeps_prefix old new (drop i p) \<and> sublist p (old @ drop i p)"
    using assms(4) by blast
  have D: "p = old \<or> sublist p p"
    by simp
  from py_replace_avoids[OF assms(1) assms(2) assms(3) B assms(5) D z] show ?thesis .
qed



lemma first_removed:
  assumes "\<not> sublist '' bf.model bf.model '' s"
  shows "\<not> sublist '' bf.model '' (py_replace '' bf.model '' '' bf.model_name '' s)"
  by (rule py_replace_avoids[OF _ _ _ _ _ _ assms]; code_simp)

lemma second_removed:
  "\<not> sublist '' bf.model,'' (py_replace '' bf.model,'' '' bf.model_name,'' s)"
  by (rule py_replace_removes; code_simp)


lemma third_removed:
  "\<not> sublist ''.model ='' (py_replace ''.model ='' ''.model_name ='' s)"
  by (rule py_replace_removes; code_simp)

lemma second_keeps_first_out:
  assumes "\<not> sublist '' bf.model '' s"
  shows "\<not> sublist '' bf.model '' (py_replace '' bf.model,'' '' bf.model_name,'' s)"
  by (rule py_replace_keeps_out[OF _ _ _ _ _ assms]; code_simp)

lemma third_keeps_first_out:
  assumes "\<not> sublist '' bf.model '' s"
  shows "\<not> sublist '' bf.model '' (py_replace ''.model ='' ''.model_name ='' s)"
  by (rule py_replace_keeps_out[OF _ _ _ _ _ assms]; code_simp)

lemma third_keeps_second_out:
  assumes "\<not> sublist '' bf.model,'' s"
  shows "\<not> sublist '' bf.model,'' (py_replace ''.model ='' ''.model_name ='' s)"
  by (rule py_replace_keeps_out[OF _ _ _ _ _ assms]; code_simp)

text \<open>
  C5, amended: the rewrite is idempotent on every query in which no two occurrences of
  the first pattern share a space, that is, which does not contain
  \<open> bf.model bf.model \<close>.
\<close>

theorem sql_alias_fix_idempotent:
  assumes "\<not> occurs '' bf.model bf.model '' q"
  shows "sql_alias_fix (sql_alias_fix q) = sql_alias_fix q"
proof -
  define y where "y = py_replace '' bf.model '' '' bf.model_name '' q"
  define x where "x = py_replace '' bf.model,'' '' bf.model_name,'' y"
  define r where "r = py_replace ''.model ='' ''.model_name ='' x"
  have r: "sql_alias_fix q = r"
    by (simp add: sql_alias_fix_def r_def x_def y_def)
  from assms have "\<not> sublist '' bf.model '' y"
    unfolding y_def occurs_def by (rule first_removed)
  then have "\<not> sublist '' bf.model '' x"
    unfolding x_def by (rule second_keeps_first_out)
  then have 1: "\<not> sublist '' bf.model '' r"
    unfolding r_def by (rule third_keeps_first_out)
  have "\<not> sublist '' bf.model,'' x"
    unfolding x_def by (rule second_removed)
  then have 2: "\<not> sublist '' bf.model,'' r"
    unfolding r_def by (rule third_keeps_second_out)
  have 3: "\<not> sublist ''.model ='' r"
    unfolding r_def by (rule third_removed)
  have "sql_alias_fix r = r"
    unfolding sql_alias_fix_def using 1 2 3 by (simp add: py_replace_id)
  with r show ?thesis
    by simp
qed

theorem sql_alias_fix_idempotent_witness:
  "\<not> occurs '' bf.model bf.model '' raw_statement
   \<and> sql_alias_fix raw_statement = fixed_statement
   \<and> sql_alias_fix fixed_statement = fixed_statement"
proof -
  have h: "\<not> occurs '' bf.model bf.model '' raw_statement"
    by code_simp
  have f: "sql_alias_fix raw_statement = fixed_statement"
    by code_simp
  from sql_alias_fix_idempotent[OF h] f h show ?thesis
    by simp
qed

section \<open>C6: the action \<open>query\<close>\<close>



section \<open>C7: the order of the sections of a formatted row\<close>

text \<open>
  C7: for a row with a text as description, the reply is the stripped description;
  then, if there are solutions, a blank line, the header \<open>Recommended steps:\<close> and one
  line \<open>- s\<close> for each solution \<open>s\<close>, in their order; then, if \<open>manual_link\<close> is not
  empty, a blank line and the manual annotation (the label of line 258, then
  \<open> Manual: \<close> and the link); then, if \<open>regulation_ref\<close> is not empty, a blank line and
  the regulation annotation (the label of line 261, then \<open> Gas Safety Regulation: \<close> and
  the reference).  Sections that are absent leave the others in this order.  The
  labels are the bytes the source file has between the line breaks and the word.
\<close>

theorem format_row_sections:
  assumes "dict_get row_dict ''description'' (PStr []) = PStr description"
    and "solutions_list e (dict_get row_dict ''solutions'' PNone) = Inr sols"
  shows "format_row e row_dict manual regulation =
           Inr (strip description
                @ (if sols = [] then []
                   else [CHR 0x0A, CHR 0x0A] @ ''Recommended steps:'' @ [CHR 0x0A]
                        @ py_join [CHR 0x0A] (map (\<lambda>s. ''- '' @ fmt e s) sols))
                @ (if truthy manual
                   then [CHR 0x0A, CHR 0x0A, CHR 0xEF, CHR 0xA3, CHR 0xBF, CHR 0xC3, CHR 0xBC, CHR 0xC3, CHR 0xAC,
                         CHR 0xC3, CHR 0xB1] @ '' Manual: '' @ fmt e manual
                   else [])
                @ (if truthy regulation
                   then [CHR 0x0A, CHR 0x0A, CHR 0xE2, CHR 0x80, CHR 0x9A, CHR 0xC3, CHR 0xB6, CHR 0xE2, CHR 0x80,
                         CHR 0xA0, CHR 0xC3, CHR 0x94, CHR 0xE2, CHR 0x88, CHR 0x8F, CHR 0xC3, CHR 0xA8]
                        @ '' Gas Safety Regulation: '' @ fmt e regulation
                   else []))
         \<and> (\<forall>t. fmt e (PStr t) = t)"
  using assms
  by (simp add: format_row_def Let_def steps_header_def manual_note_def regulation_note_def
                fmt_def)

theorem format_row_sections_witness:
  "format_row example_env pump_row (PStr ''http://x/manual.pdf'') (PStr ''IGEM/UP/1B'') =
     Inr (''Pump fault''
          @ [CHR 0x0A, CHR 0x0A] @ ''Recommended steps:'' @ [CHR 0x0A]
          @ ''- Check pump'' @ [CHR 0x0A] @ ''- Check pressure''
          @ [CHR 0x0A, CHR 0x0A, CHR 0xEF, CHR 0xA3, CHR 0xBF, CHR 0xC3, CHR 0xBC, CHR 0xC3,
             CHR 0xAC, CHR 0xC3, CHR 0xB1] @ '' Manual: '' @ ''http://x/manual.pdf''
          @ [CHR 0x0A, CHR 0x0A, CHR 0xE2, CHR 0x80, CHR 0x9A, CHR 0xC3, CHR 0xB6, CHR 0xE2,
             CHR 0x80, CHR 0xA0, CHR 0xC3, CHR 0x94, CHR 0xE2, CHR 0x88, CHR 0x8F, CHR 0xC3,
             CHR 0xA8] @ '' Gas Safety Regulation: '' @ ''IGEM/UP/1B'')
   \<and> format_row example_env pump_row (PStr []) (PStr ''IGEM/UP/1B'') =
     Inr (''Pump fault''
          @ [CHR 0x0A, CHR 0x0A] @ ''Recommended steps:'' @ [CHR 0x0A]
          @ ''- Check pump'' @ [CHR 0x0A] @ ''- Check pressure''
          @ [CHR 0x0A, CHR 0x0A, CHR 0xE2, CHR 0x80, CHR 0x9A, CHR 0xC3, CHR 0xB6, CHR 0xE2,
             CHR 0x80, CHR 0xA0, CHR 0xC3, CHR 0x94, CHR 0xE2, CHR 0x88, CHR 0x8F, CHR 0xC3,
             CHR 0xA8] @ '' Gas Safety Regulation: '' @ ''IGEM/UP/1B'')
   \<and> format_row example_env [(''description'', PStr ''  Pump fault '')]
         (PStr ''http://x/manual.pdf'') (PStr []) =
     Inr (''Pump fault''
          @ [CHR 0x0A, CHR 0x0A, CHR 0xEF, CHR 0xA3, CHR 0xBF, CHR 0xC3, CHR 0xBC, CHR 0xC3,
             CHR 0xAC, CHR 0xC3, CHR 0xB1] @ '' Manual: '' @ ''http://x/manual.pdf'')"
proof -
  have d: "dict_get pump_row ''description'' (PStr []) = PStr ''Pump fault''"
    by code_simp
  have s: "solutions_list example_env (dict_get pump_row ''solutions'' PNone)
             = Inr [PStr ''Check pump'', PStr ''Check pressure'']"
    by code_simp
  have st: "strip ''Pump fault'' = ''Pump fault''" "strip ''  Pump fault '' = ''Pump fault''"
    by code_simp+
  have d2: "dict_get [(''description'', PStr ''  Pump fault '')]
              ''description'' (PStr []) = PStr ''  Pump fault ''"
    by code_simp
  have s2: "solutions_list example_env
              (dict_get [(''description'', PStr ''  Pump fault '')]
                 ''solutions'' PNone) = Inr []"
    by code_simp
  show ?thesis
    using format_row_sections[OF d s, of "PStr ''http://x/manual.pdf''" "PStr ''IGEM/UP/1B''"]
          format_row_sections[OF d s, of "PStr []" "PStr ''IGEM/UP/1B''"]
          format_row_sections[OF d2 s2, of "PStr ''http://x/manual.pdf''" "PStr []"] st
    by simp
qed

section \<open>C8: the history of a session\<close>

text \<open>
  C8 as stated holds whatever the requests execute.  The statement of a \<open>query\<close>
  decision is the model's and runs in the transaction of the request, so it can write
  \<open>chat_sessions\<close>.  After two requests for the session \<open>s1\<close> that were both answered, the
  second with a statement that deletes the row of \<open>s1\<close> and returns its key, the table
  has no row for \<open>s1\<close>: the update of lines 284--287 found none to write to, and the two
  turns of the first request are gone.
\<close>

theorem history_deleted_counterexample:
  "fst (serve forgetful_steps no_sessions)
     = [Ok \<lparr> a_response = PStr ''What type of heating system?'',
              a_sql_query = PStr ''N/A'',
              a_session_id = ''s1'',
              a_manual_link = PStr [],
              a_regulation_ref = PStr [],
              a_action = PStr ''ask'' \<rparr>,
        Ok \<lparr> a_response = PStr ''s1'',
              a_sql_query = PStr forget_statement,
              a_session_id = ''s1'',
              a_manual_link = PStr [],
              a_regulation_ref = PStr [],
              a_action = PStr ''query'' \<rparr>]
   \<and> snd (serve (take 1 forgetful_steps) no_sessions) ''s1''
     = Some (Some [\<lparr>role = ''user'', content = PStr ''My boiler is cold''\<rparr>,
                   \<lparr>role = ''assistant'', content = PStr ''What type of heating system?''\<rparr>])
   \<and> snd (serve forgetful_steps no_sessions) ''s1'' = None
   \<and> history_of (snd (serve forgetful_steps no_sessions)) ''s1'' = []"
  by code_simp

text \<open>What one request, and a sequence of requests, adds to the history of a session
  when the statements executed are reads.\<close>

lemma step_turns:
  assumes "text_to_sql e req db = (r, db')" and "reads e"
  shows "history_of db' sid = history_of db sid
           @ (case r of
                Ok a \<Rightarrow>
                  (case question req of
                     Some q \<Rightarrow>
                       if sessionId req = Some sid
                       then [\<lparr>role = ''user'', content = PStr q\<rparr>,
                             \<lparr>role = ''assistant'', content = a_response a\<rparr>]
                       else []
                   | None \<Rightarrow> [])
              | _ \<Rightarrow> [])"
proof (cases r)
  case (Ok a)
  from answered_steps[OF assms(1)[unfolded Ok]] obtain s q d db2 where
    st: "sessionId req = Some s" "question req = Some q"
        "act e d (snd (fetch_or_create s db)) = Inr (a_response a, a_sql_query a, db2)"
        "db' = update_history s
                 (history_of db s @ [user_turn q, assistant_turn (a_response a)]) db2"
    by blast
  from act_reads[OF assms(2) st(3)] have db2: "db2 = snd (fetch_or_create s db)"
    by simp
  show ?thesis
    using fetch_row[of s db]
    by (simp add: st db2 Ok history_of_update fetch_history_after user_turn_def
                  assistant_turn_def)
next
  case (BadRequest m)
  with assms(1) have "db' = db"
    by (auto simp: text_to_sql_def transaction_body_def Let_def
             split: option.splits if_splits prod.splits body_exit.splits sum.splits)
  with BadRequest show ?thesis
    by simp
next
  case (ServerError err)
  with assms(1) raise_rolls_back have "db' = db"
    by blast
  with ServerError show ?thesis
    by simp
next
  case (DecodeFailure raw)
  with assms(1) obtain s h where "fetch_or_create s db = (h, db')"
    by (auto simp: text_to_sql_def transaction_body_def Let_def
             split: option.splits if_splits prod.splits body_exit.splits sum.splits)
  then have "db' = snd (fetch_or_create s db)"
    by simp
  with DecodeFailure show ?thesis
    by (simp add: fetch_history_after)
qed

lemma answered_question:
  "text_to_sql e req db = (Ok a, db') \<Longrightarrow> \<exists>q. question req = Some q"
  using answered_steps by blast

lemma serve_turns:
  "serve steps db = (rs, db') \<Longrightarrow> \<forall>(e, req)\<in>set steps. reads e \<Longrightarrow>
     history_of db' sid = history_of db sid
       @ concat (map (\<lambda>(req, r).
                   case r of
                     Ok a \<Rightarrow>
                       (case question req of
                          Some q \<Rightarrow>
                            if sessionId req = Some sid
                            then [\<lparr>role = ''user'', content = PStr q\<rparr>,
                                  \<lparr>role = ''assistant'', content = a_response a\<rparr>]
                            else []
                        | None \<Rightarrow> [])
                   | _ \<Rightarrow> [])
                 (zip (map snd steps) rs))"
proof (induction steps arbitrary: db rs db')
  case Nil
  then show ?case by simp
next
  case (Cons step steps)
  obtain e req where step: "step = (e, req)"
    by (cases step)
  obtain r db1 where r: "text_to_sql e req db = (r, db1)"
    by (cases "text_to_sql e req db")
  obtain rs' db2 where rs': "serve steps db1 = (rs', db2)"
    by (cases "serve steps db1")
  from Cons.prems(1) step r rs' have eq: "rs = r # rs'" "db' = db2"
    by simp_all
  from Cons.prems(2) step have re: "reads e" and rest: "\<forall>(e, req)\<in>set steps. reads e"
    by simp_all
  from Cons.IH[OF rs' rest] step_turns[OF r re, of sid] show ?case
    by (simp add: eq step)
qed

lemma serve_roles:
  "serve steps db = (rs, db') \<Longrightarrow>
     map role (concat (map (\<lambda>(req, r).
                   case r of
                     Ok a \<Rightarrow>
                       (case question req of
                          Some q \<Rightarrow>
                            if sessionId req = Some sid
                            then [\<lparr>role = ''user'', content = PStr q\<rparr>,
                                  \<lparr>role = ''assistant'', content = a_response a\<rparr>]
                            else []
                        | None \<Rightarrow> [])
                   | _ \<Rightarrow> [])
                 (zip (map snd steps) rs)))
       = concat (replicate (length (filter (\<lambda>(req, r). answered sid req r) (zip (map snd steps) rs)))
                   [''user'', ''assistant''])"
proof (induction steps arbitrary: db rs db')
  case Nil
  then show ?case by simp
next
  case (Cons step steps)
  obtain e req where step: "step = (e, req)"
    by (cases step)
  obtain r db1 where r: "text_to_sql e req db = (r, db1)"
    by (cases "text_to_sql e req db")
  obtain rs' db2 where rs': "serve steps db1 = (rs', db2)"
    by (cases "serve steps db1")
  from Cons.prems step r rs' have eq: "rs = r # rs'" "db' = db2"
    by simp_all
  have "r = Ok a \<Longrightarrow> \<exists>q. question req = Some q" for a
    using r answered_question by blast
  with Cons.IH[OF rs'] show ?case
    by (cases r) (auto simp: eq step answered_def)
qed

text \<open>
  C8, amended: when the statements the requests execute are reads, which leave
  \<open>chat_sessions\<close> as it is, a sequence of requests leaves the history of a session as it
  was, followed by the two turns of each request for that session that was answered, in
  the order of the requests: the question as the user turn, then the final reply as the
  assistant turn.  With \<open>n\<close> such requests that is \<open>2 * n\<close> turns whose roles alternate,
  user first; they are the whole history when the session started without one.
\<close>

theorem history_appended:
  assumes "serve steps db = (rs, db')"
    and "\<forall>(e, req)\<in>set steps. reads e"
  shows "let added =
               concat (map (\<lambda>(req, r).
                   case r of
                     Ok a \<Rightarrow>
                       (case question req of
                          Some q \<Rightarrow>
                            if sessionId req = Some sid
                            then [\<lparr>role = ''user'', content = PStr q\<rparr>,
                                  \<lparr>role = ''assistant'', content = a_response a\<rparr>]
                            else []
                        | None \<Rightarrow> [])
                   | _ \<Rightarrow> [])
                 (zip (map snd steps) rs));
             n = length (filter (\<lambda>(req, r). answered sid req r) (zip (map snd steps) rs))
         in history_of db' sid = history_of db sid @ added
            \<and> length added = 2 * n
            \<and> map role added = concat (replicate n [''user'', ''assistant''])
            \<and> (history_of db sid = [] \<longrightarrow>
                  length (history_of db' sid) = 2 * n
                  \<and> map role (history_of db' sid) = concat (replicate n [''user'', ''assistant'']))"
proof -
  define added where "added =
               concat (map (\<lambda>(req, r).
                   case r of
                     Ok a \<Rightarrow>
                       (case question req of
                          Some q \<Rightarrow>
                            if sessionId req = Some sid
                            then [\<lparr>role = ''user'', content = PStr q\<rparr>,
                                  \<lparr>role = ''assistant'', content = a_response a\<rparr>]
                            else []
                        | None \<Rightarrow> [])
                   | _ \<Rightarrow> [])
                 (zip (map snd steps) rs))"
  define n where "n = length (filter (\<lambda>(req, r). answered sid req r) (zip (map snd steps) rs))"
  have h: "history_of db' sid = history_of db sid @ added"
    unfolding added_def by (rule serve_turns[OF assms])
  have r: "map role added = concat (replicate n [''user'', ''assistant''])"
    unfolding added_def n_def by (rule serve_roles[OF assms(1)])
  have "length added = length (map role added)"
    by simp
  also have "\<dots> = 2 * n"
    unfolding r by (simp add: length_concat sum_list_replicate)
  finally have l: "length added = 2 * n" .
  from h r l show ?thesis
    unfolding Let_def added_def[symmetric] n_def[symmetric] by simp
qed

theorem history_appended_witness:
  "history_of (snd (serve example_steps no_sessions)) ''s1''
     = [\<lparr>role = ''user'', content = PStr ''My boiler is cold''\<rparr>,
        \<lparr>role = ''assistant'', content = PStr ''What type of heating system?''\<rparr>,
        \<lparr>role = ''user'', content = PStr ''Ideal Logic F1''\<rparr>,
        \<lparr>role = ''assistant'', content = PStr pump_reply\<rparr>]
   \<and> length (history_of (snd (serve example_steps no_sessions)) ''s1'') = 2 * 2
   \<and> map role (history_of (snd (serve example_steps no_sessions)) ''s1'')
       = [''user'', ''assistant'', ''user'', ''assistant'']"
proof -
  have p: "serve example_steps no_sessions
             = (fst (serve example_steps no_sessions), snd (serve example_steps no_sessions))"
    by simp
  have rd: "reads example_env"
    by (auto simp: reads_def example_env_def split: sum.splits)
  then have r: "\<forall>(e, req)\<in>set example_steps. reads e"
    by (simp add: example_steps_def)
  have e: "history_of no_sessions ''s1'' = []"
    by code_simp
  have a: "concat (map (\<lambda>(req, r).
                   case r of
                     Ok a \<Rightarrow>
                       (case question req of
                          Some q \<Rightarrow>
                            if sessionId req = Some ''s1''
                            then [\<lparr>role = ''user'', content = PStr q\<rparr>,
                                  \<lparr>role = ''assistant'', content = a_response a\<rparr>]
                            else []
                        | None \<Rightarrow> [])
                   | _ \<Rightarrow> [])
                 (zip (map snd example_steps) (fst (serve example_steps no_sessions))))
             = [\<lparr>role = ''user'', content = PStr ''My boiler is cold''\<rparr>,
                \<lparr>role = ''assistant'', content = PStr ''What type of heating system?''\<rparr>,
                \<lparr>role = ''user'', content = PStr ''Ideal Logic F1''\<rparr>,
                \<lparr>role = ''assistant'', content = PStr pump_reply\<rparr>]"
    by code_simp
  have n: "length (filter (\<lambda>(req, r). answered ''s1'' req r)
             (zip (map snd example_steps) (fst (serve example_steps no_sessions)))) = 2"
    by code_simp
  from history_appended[OF p r, of "''s1''"] e a n show ?thesis
    by (simp add: Let_def numeral_2_eq_2)
qed

section \<open>C9: a text that does not decode\<close>

text \<open>
  C9 as stated covers every text that is not JSON.  The handler catches
  \<open>JSONDecodeError\<close> only.  On a thousand opening brackets, which are not JSON,
  \<open>json.loads\<close> raises \<open>RecursionError\<close>: the request ends as the failure of line 299,
  which carries the message of the exception and not the text of the model.
\<close>

theorem decode_failure_other_counterexample:
  "invoke example_env ''Deep'' [\<lparr>role = ''user'', content = PStr ''Deep''\<rparr>]
     = Inr (replicate 1000 (CHR ''[''))
   \<and> loads example_env (json_str (replicate 1000 (CHR ''[''))) = Inl RecursionError
   \<and> fst (text_to_sql example_env (example_request ''Deep'') no_sessions)
     = ServerError RecursionError
   \<and> fst (text_to_sql example_env (example_request ''Deep'') no_sessions)
     \<noteq> DecodeFailure (replicate 1000 (CHR ''[''))"
  by code_simp

text \<open>
  C9, amended: when \<open>json.loads\<close> rejects what the model answered, after the fence is
  stripped, with \<open>JSONDecodeError\<close>, the response is the decode failure, it carries the
  model's text as it was received, and no turn is added to the history of the session:
  no decision and no reply stand in for the one that could not be read.  When it
  rejects the text with another exception, the request ends as the generic failure with
  that exception, without the model's text, and the table is as it was.
\<close>

theorem decode_failure_reported:
  assumes "sessionId req = Some sid" and "sid \<noteq> []"
    and "question req = Some q" and "q \<noteq> []"
    and "invoke e q (history_of db sid @ [\<lparr>role = ''user'', content = PStr q\<rparr>]) = Inr raw"
  shows "(loads e (json_str raw) = Inl JSONDecodeError \<longrightarrow>
            fst (text_to_sql e req db) = DecodeFailure raw
            \<and> history_of (snd (text_to_sql e req db)) sid = history_of db sid)
         \<and> (\<forall>err. loads e (json_str raw) = Inl err \<and> err \<noteq> JSONDecodeError \<longrightarrow>
              text_to_sql e req db = (ServerError err, db))"
proof -
  obtain h0 db1 where f: "fetch_or_create sid db = (h0, db1)"
    by (cases "fetch_or_create sid db")
  with fetch_history[of sid db] fetch_history_after[of sid db sid]
  have h: "h0 = history_of db sid" "history_of db1 sid = history_of db sid"
    by simp_all
  from assms(5) have inv: "invoke e q (history_of db sid @ [user_turn q]) = Inr raw"
    by (simp add: user_turn_def)
  show ?thesis
    using assms(1-4) inv f h
    by (auto simp: text_to_sql_def transaction_body_def parse_def Let_def)
qed

theorem decode_failure_reported_witness:
  "fst (text_to_sql example_env (example_request ''Hello'') no_sessions)
     = DecodeFailure ''Sorry, I cannot help.''
   \<and> history_of (snd (text_to_sql example_env (example_request ''Hello'') no_sessions)) ''s1''
     = history_of no_sessions ''s1''
   \<and> text_to_sql example_env (example_request ''Deep'') no_sessions
     = (ServerError RecursionError, no_sessions)"
proof -
  have 1: "sessionId (example_request ''Hello'') = Some ''s1''"
    and 2: "question (example_request ''Hello'') = Some ''Hello''"
    and 5: "sessionId (example_request ''Deep'') = Some ''s1''"
    and 6: "question (example_request ''Deep'') = Some ''Deep''"
    by (simp_all add: example_request_def)
  have 3: "invoke example_env ''Hello''
             (history_of no_sessions ''s1'' @ [\<lparr>role = ''user'', content = PStr ''Hello''\<rparr>])
             = Inr ''Sorry, I cannot help.''"
    by code_simp
  have 4: "loads example_env (json_str ''Sorry, I cannot help.'') = Inl JSONDecodeError"
    by code_simp
  have 7: "invoke example_env ''Deep''
             (history_of no_sessions ''s1'' @ [\<lparr>role = ''user'', content = PStr ''Deep''\<rparr>])
             = Inr deep_text"
    by code_simp
  have 8: "loads example_env (json_str deep_text) = Inl RecursionError"
    by code_simp
  from decode_failure_reported[OF 1 _ 2 _ 3] 4
  have "fst (text_to_sql example_env (example_request ''Hello'') no_sessions)
     = DecodeFailure ''Sorry, I cannot help.''
   \<and> history_of (snd (text_to_sql example_env (example_request ''Hello'') no_sessions)) ''s1''
     = history_of no_sessions ''s1''"
    by simp
  moreover from decode_failure_reported[OF 5 _ 6 _ 7] 8
  have "text_to_sql example_env (example_request ''Deep'') no_sessions
     = (ServerError RecursionError, no_sessions)"
    by simp
  ultimately show ?thesis
    by blast
qed

section \<open>C10: a decision without a response\<close>

text \<open>
  C10: the response of a decision is read without a default, so it is \<open>None\<close> when the
  key is missing or \<open>null\<close>.  Then the action \<open>fallback_reasoning\<close> with a
  \<open>manual_link\<close> or \<open>regulation_ref\<close> that is not empty raises \<open>TypeError\<close> when the
  annotation is appended: the request ends as the failure of line 299 and stores
  nothing.  The action \<open>ask\<close> answers with the reply \<open>null\<close>, which is stored as the
  assistant turn.
\<close>

theorem missing_response:
  assumes "sessionId req = Some sid" and "sid \<noteq> []"
    and "question req = Some q" and "q \<noteq> []"
    and "invoke e q (history_of db sid @ [user_turn q]) = Inr raw"
    and "loads e (json_str raw) = Inr (PDict j)"
    and "map_of j ''response'' = None \<or> map_of j ''response'' = Some PNone"
    and "\<not> truthy (dict_get j ''sql_query'' PNone) \<or> is_text (dict_get j ''sql_query'' PNone)"
  shows "(\<exists>d. parse e raw = Inr d \<and> response_text d = PNone)
         \<and> (dict_get j ''action'' PNone = PStr ''fallback_reasoning''
              \<and> (truthy (dict_get j ''manual_link'' (PStr []))
                  \<or> truthy (dict_get j ''regulation_ref'' (PStr [])))
             \<longrightarrow> text_to_sql e req db = (ServerError TypeError, db))
         \<and> (dict_get j ''action'' PNone = PStr ''ask''
             \<longrightarrow> (\<exists>a. fst (text_to_sql e req db) = Ok a \<and> a_response a = PNone)
                 \<and> history_of (snd (text_to_sql e req db)) sid
                     = history_of db sid @ [user_turn q, assistant_turn PNone])"
proof -
  have "\<exists>sq. fix_sql_query (dict_get j ''sql_query'' PNone) = Inr sq"
    using assms(8)
    by (cases "dict_get j ''sql_query'' PNone") (auto simp: fix_sql_query_def is_text_def)
  then obtain sq where sq: "fix_sql_query (dict_get j ''sql_query'' PNone) = Inr sq"
    by blast
  let ?d = "\<lparr> action = dict_get j ''action'' PNone,
              response_text = dict_get j ''response'' PNone,
              context_update = dict_get j ''context_update'' (PDict []),
              sql_query = sq,
              manual_link = dict_get j ''manual_link'' (PStr []),
              regulation_ref = dict_get j ''regulation_ref'' (PStr []) \<rparr>"
  from assms(7) have r: "dict_get j ''response'' PNone = PNone"
    by (auto simp: dict_get_def)
  from assms(6) sq have p: "parse e raw = Inr ?d"
    by (simp add: parse_def decision_of_def)
  obtain h0 db1 where f: "fetch_or_create sid db = (h0, db1)"
    by (cases "fetch_or_create sid db")
  with fetch_history[of sid db] have h0: "h0 = history_of db sid"
    by simp
  from f have row: "db1 sid \<noteq> None"
    using fetch_row[of sid db] by simp
  have body: "text_to_sql e req db =
                (case act e ?d db1 of
                   Inl err \<Rightarrow> (ServerError err, db)
                 | Inr (final_response, sql_query_for_response, db2) \<Rightarrow>
                     (Ok \<lparr> a_response = final_response,
                           a_sql_query = sql_query_for_response,
                           a_session_id = sid,
                           a_manual_link = manual_link ?d,
                           a_regulation_ref = regulation_ref ?d,
                           a_action = action ?d \<rparr>,
                      update_history sid
                        (history_of db sid @ [user_turn q, assistant_turn final_response]) db2))"
    using assms(1-5) p f h0
    by (simp add: text_to_sql_def transaction_body_def Let_def split: sum.splits prod.splits)
  have fb: "dict_get j ''action'' PNone = PStr ''fallback_reasoning''
              \<and> (truthy (dict_get j ''manual_link'' (PStr []))
                  \<or> truthy (dict_get j ''regulation_ref'' (PStr [])))
             \<longrightarrow> act e ?d db1 = Inl TypeError"
    using r by (auto simp: act_def)
  have ak: "dict_get j ''action'' PNone = PStr ''ask'' \<longrightarrow> act e ?d db1 = Inr (PNone, PStr ''N/A'', db1)"
    using r by (simp add: act_def)
  from p r have 1: "\<exists>d. parse e raw = Inr d \<and> response_text d = PNone"
    by (intro exI[of _ ?d]) simp
  from fb body have 2: "dict_get j ''action'' PNone = PStr ''fallback_reasoning''
              \<and> (truthy (dict_get j ''manual_link'' (PStr []))
                  \<or> truthy (dict_get j ''regulation_ref'' (PStr [])))
             \<longrightarrow> text_to_sql e req db = (ServerError TypeError, db)"
    by simp
  from ak body row have 3: "dict_get j ''action'' PNone = PStr ''ask''
             \<longrightarrow> (\<exists>a. fst (text_to_sql e req db) = Ok a \<and> a_response a = PNone)
                 \<and> history_of (snd (text_to_sql e req db)) sid
                     = history_of db sid @ [user_turn q, assistant_turn PNone]"
    by (simp add: history_of_update)
  from 1 2 3 show ?thesis
    by blast
qed

theorem missing_response_witness:
  "text_to_sql example_env (example_request ''It rattles'') no_sessions
     = (ServerError TypeError, no_sessions)
   \<and> (\<exists>a. fst (text_to_sql example_env (example_request ''Hm'') no_sessions) = Ok a
          \<and> a_response a = PNone)
   \<and> history_of (snd (text_to_sql example_env (example_request ''Hm'') no_sessions)) ''s1''
       = history_of no_sessions ''s1'' @ [user_turn ''Hm'', assistant_turn PNone]"
proof -
  have 1: "sessionId (example_request ''It rattles'') = Some ''s1''"
    and 2: "question (example_request ''It rattles'') = Some ''It rattles''"
    by (simp_all add: example_request_def)
  have 3: "invoke example_env ''It rattles'' (history_of no_sessions ''s1'' @ [user_turn ''It rattles''])
             = Inr fallback_null_json"
    by code_simp
  have 4: "loads example_env (json_str fallback_null_json) = Inr (PDict fallback_null_dict)"
    by code_simp
  have 5: "map_of fallback_null_dict ''response'' = None
           \<or> map_of fallback_null_dict ''response'' = Some PNone"
    by code_simp
  have 6: "\<not> truthy (dict_get fallback_null_dict ''sql_query'' PNone)
           \<or> is_text (dict_get fallback_null_dict ''sql_query'' PNone)"
    by code_simp
  have 7: "dict_get fallback_null_dict ''action'' PNone = PStr ''fallback_reasoning''"
          "truthy (dict_get fallback_null_dict ''manual_link'' (PStr []))"
    by code_simp+
  have a1: "sessionId (example_request ''Hm'') = Some ''s1''"
    and a2: "question (example_request ''Hm'') = Some ''Hm''"
    by (simp_all add: example_request_def)
  have a3: "invoke example_env ''Hm'' (history_of no_sessions ''s1'' @ [user_turn ''Hm''])
             = Inr ask_null_json"
    by code_simp
  have a4: "loads example_env (json_str ask_null_json) = Inr (PDict ask_null_dict)"
    by code_simp
  have a5: "map_of ask_null_dict ''response'' = None
            \<or> map_of ask_null_dict ''response'' = Some PNone"
    by code_simp
  have a6: "\<not> truthy (dict_get ask_null_dict ''sql_query'' PNone)
            \<or> is_text (dict_get ask_null_dict ''sql_query'' PNone)"
    by code_simp
  have a7: "dict_get ask_null_dict ''action'' PNone = PStr ''ask''"
    by code_simp
  from missing_response[OF 1 _ 2 _ 3 4 5 6] 7
  have "text_to_sql example_env (example_request ''It rattles'') no_sessions
          = (ServerError TypeError, no_sessions)"
    by simp
  moreover from missing_response[OF a1 _ a2 _ a3 a4 a5 a6] a7
  have "(\<exists>a. fst (text_to_sql example_env (example_request ''Hm'') no_sessions) = Ok a
          \<and> a_response a = PNone)
   \<and> history_of (snd (text_to_sql example_env (example_request ''Hm'') no_sessions)) ''s1''
       = history_of no_sessions ''s1'' @ [user_turn ''Hm'', assistant_turn PNone]"
    by simp
  ultimately show ?thesis
    by blast
qed

end
